theory Spec2Isabelle
  imports Complex_Main "HOL-Library.Log_Nat" "HOL-Library.Sublist"
begin

section \<open>JavaScript numbers\<close>

text \<open>
  Every \<^verbatim>\<open>number\<close> of \<^verbatim>\<open>src/App.tsx\<close> is an IEEE 754 double. A finite double is a
  rational, so a number is modelled as a \<^typ>\<open>rat\<close>, and each arithmetic operator of
  the source rounds its exact result to the nearest double, ties to even, as the
  language does: \<open>fl\<close> keeps the sign and 53 significant bits of the magnitude. The exponent range is not bounded, so
  the model is the language's arithmetic wherever no result overflows and none is
  subnormal (magnitudes between \<open>2 powi -1022\<close> and \<open>2 powi 1024\<close>), which covers
  currency amounts and shares; \<^verbatim>\<open>NaN\<close> and the infinities are not numbers of the model.
\<close>

type_synonym number = rat

definition round_half_even :: "rat \<Rightarrow> int" where
  "round_half_even z =
     (let f = \<lfloor>z\<rfloor>; d = z - of_int f
      in if d < 1 / 2 then f
         else if 1 / 2 < d then f + 1
         else if even f then f else f + 1)"

text \<open>The binary exponent of a positive rational: \<open>2 powi expo x \<le> x < 2 powi (expo x + 1)\<close>.\<close>

definition expo :: "rat \<Rightarrow> int" where
  "expo x =
     (let e = bitlen (fst (quotient_of x)) - bitlen (snd (quotient_of x))
      in if x < 2 powi e then e - 1 else e)"

definition fl :: "rat \<Rightarrow> number" where
  "fl x =
     (if x = 0 then 0
      else let e = expo \<bar>x\<bar>
           in sgn x * of_int (round_half_even (\<bar>x\<bar> * 2 powi (52 - e))) * 2 powi (e - 52))"

definition js_add :: "number \<Rightarrow> number \<Rightarrow> number" where
  "js_add x y = fl (x + y)"

definition js_sub :: "number \<Rightarrow> number \<Rightarrow> number" where
  "js_sub x y = fl (x - y)"

definition js_mul :: "number \<Rightarrow> number \<Rightarrow> number" where
  "js_mul x y = fl (x * y)"

text \<open>Every division of the source has a divisor that is at least 1.\<close>

definition js_div :: "number \<Rightarrow> number \<Rightarrow> number" where
  "js_div x y = fl (x / y)"

text \<open>A decimal literal of the source text, such as \<^verbatim>\<open>0.15\<close>, is the double nearest to it.\<close>

definition literal :: "rat \<Rightarrow> number" where
  "literal q = fl q"

text \<open>The decimal digits that a template string prints for a count.\<close>

function string_of_nat :: "nat \<Rightarrow> string" where
  "string_of_nat n =
     (if n < 10 then [''0123456789'' ! n]
      else string_of_nat (n div 10) @ [''0123456789'' ! (n mod 10)])"
  by pat_completeness auto
termination
  by (relation "measure (\<lambda>n. n)") auto

section \<open>Types\<close>

datatype AssetType = cash | stock | property

record Asset =
  asset_id :: string
  asset_type :: AssetType
  amount :: number
  location :: string
  asset_name :: "string option"

datatype PersonStatusType = NONE | ALIVE | DECEASED

datatype Gender = male | female

record FamilyMember =
  member_id :: string
  member_name :: string
  gender :: Gender
  status :: PersonStatusType
  relation :: "string option"
  relationLabel :: "string option"
  hasSpouse_m :: "bool option"
  hasChildren_m :: "bool option"
  childCount_m :: "number option"

record Heir = FamilyMember +
  isHeir :: bool
  share :: string
  legalShare :: number

record Family =
  self :: "string \<times> Gender"
  spouse :: FamilyMember
  father :: FamilyMember
  mother :: FamilyMember
  children :: "FamilyMember list"
  siblings :: "FamilyMember list"

section \<open>Estate tax\<close>

definition ESTATE_TAX_EXEMPTION :: number where "ESTATE_TAX_EXEMPTION = 13330000"
definition DEDUCTION_SPOUSE :: number where "DEDUCTION_SPOUSE = 5530000"
definition DEDUCTION_PARENT :: number where "DEDUCTION_PARENT = 1380000"
definition DEDUCTION_CHILD :: number where "DEDUCTION_CHILD = 560000"
definition DEDUCTION_FUNERAL :: number where "DEDUCTION_FUNERAL = 1380000"

text \<open>A bracket's \<open>limit\<close> is \<open>None\<close> where the source has \<^verbatim>\<open>Infinity\<close>.\<close>

record Bracket =
  limit :: "number option"
  bracket_rate :: number
  deduction :: number

definition ESTATE_TAX_BRACKETS :: "Bracket list" where
  "ESTATE_TAX_BRACKETS =
     [\<lparr>limit = Some 56210000, bracket_rate = literal (10 / 100), deduction = 0\<rparr>,
      \<lparr>limit = Some 112420000, bracket_rate = literal (15 / 100), deduction = 2810500\<rparr>,
      \<lparr>limit = None, bracket_rate = literal (20 / 100), deduction = 8431500\<rparr>]"

definition le_limit :: "number \<Rightarrow> number option \<Rightarrow> bool" where
  "le_limit x l = (case l of None \<Rightarrow> True | Some b \<Rightarrow> x \<le> b)"

record TaxResult =
  tax :: number
  rate :: number

definition calculateInheritanceTax :: "number \<Rightarrow> TaxResult" where
  "calculateInheritanceTax taxableAmount =
     (if taxableAmount \<le> 0 then \<lparr>tax = 0, rate = 0\<rparr>
      else
        let bracket =
              (case find (\<lambda>b. le_limit taxableAmount (limit b)) ESTATE_TAX_BRACKETS of
                 Some b \<Rightarrow> b
               | None \<Rightarrow> last ESTATE_TAX_BRACKETS);
            t = js_sub (js_mul taxableAmount (bracket_rate bracket)) (deduction bracket)
        in \<lparr>tax = max 0 t, rate = bracket_rate bracket\<rparr>)"

text \<open>
  The amount that lines 95 to 97 of the source compute from a bracket:
  \<^verbatim>\<open>Math.max(0, taxableAmount * bracket.rate - bracket.deduction)\<close>.
\<close>

definition bracketTax :: "Bracket \<Rightarrow> number \<Rightarrow> number" where
  "bracketTax bracket taxableAmount =
     max 0 (js_sub (js_mul taxableAmount (bracket_rate bracket)) (deduction bracket))"

section \<open>The heirs of a family\<close>

definition label_spouse :: string where
  "label_spouse = [CHR 0xE9, CHR 0x85, CHR 0x8D, CHR 0xE5, CHR 0x81, CHR 0xB6]"

definition label_father :: string where
  "label_father = [CHR 0xE7, CHR 0x88, CHR 0xB6, CHR 0xE8, CHR 0xA6, CHR 0xAA]"

definition label_mother :: string where
  "label_mother = [CHR 0xE6, CHR 0xAF, CHR 0x8D, CHR 0xE8, CHR 0xA6, CHR 0xAA]"

definition label_child :: string where
  "label_child = [CHR 0xE5, CHR 0xAD, CHR 0x90, CHR 0xE5, CHR 0xA5, CHR 0xB3]"

definition label_sibling :: string where
  "label_sibling =
     [CHR 0xE5, CHR 0x85, CHR 0x84, CHR 0xE5, CHR 0xBC, CHR 0x9F,
      CHR 0xE5, CHR 0xA7, CHR 0x8A, CHR 0xE5, CHR 0xA6, CHR 0xB9]"

text \<open>\<^verbatim>\<open>{ ...person, relation: r, relationLabel: l }\<close>\<close>

definition candidate :: "FamilyMember \<Rightarrow> string \<Rightarrow> string \<Rightarrow> FamilyMember" where
  "candidate person r l = person\<lparr>relation := Some r, relationLabel := Some l\<rparr>"

definition allCandidates :: "Family \<Rightarrow> FamilyMember list" where
  "allCandidates family =
     (if status (spouse family) \<noteq> NONE
      then [candidate (spouse family) ''spouse'' label_spouse] else []) @
     (if status (father family) \<noteq> NONE
      then [candidate (father family) ''parent'' label_father] else []) @
     (if status (mother family) \<noteq> NONE
      then [candidate (mother family) ''parent'' label_mother] else []) @
     map (\<lambda>c. candidate c ''child'' label_child) (children family) @
     map (\<lambda>s. candidate s ''sibling'' label_sibling) (siblings family)"

definition livingChildren :: "Family \<Rightarrow> FamilyMember list" where
  "livingChildren family = filter (\<lambda>c. status c = ALIVE) (children family)"

definition hasSpouse :: "Family \<Rightarrow> bool" where
  "hasSpouse family = (status (spouse family) = ALIVE)"

definition hasFather :: "Family \<Rightarrow> bool" where
  "hasFather family = (status (father family) = ALIVE)"

definition hasMother :: "Family \<Rightarrow> bool" where
  "hasMother family = (status (mother family) = ALIVE)"

definition livingSiblings :: "Family \<Rightarrow> FamilyMember list" where
  "livingSiblings family = filter (\<lambda>s. status s = ALIVE) (siblings family)"

text \<open>\<^verbatim>\<open>{ ...person, isHeir, share, legalShare }\<close>\<close>

definition mkHeir :: "FamilyMember \<Rightarrow> bool \<Rightarrow> string \<Rightarrow> number \<Rightarrow> Heir" where
  "mkHeir person h s l =
     \<lparr>member_id = member_id person, member_name = member_name person,
      gender = gender person, status = status person, relation = relation person,
      relationLabel = relationLabel person, hasSpouse_m = hasSpouse_m person,
      hasChildren_m = hasChildren_m person, childCount_m = childCount_m person,
      isHeir = h, share = s, legalShare = l\<rparr>"

text \<open>The body of the \<^verbatim>\<open>map\<close> callback of \<^verbatim>\<open>heirs\<close>: the priority classes in order.\<close>

definition heirOf :: "Family \<Rightarrow> FamilyMember \<Rightarrow> Heir" where
  "heirOf family person =
     (if length (livingChildren family) > 0 then
        (if (relation person = Some ''child'' \<and> status person = ALIVE)
            \<or> (relation person = Some ''spouse'' \<and> hasSpouse family)
         then
           let totalHeirs = length (livingChildren family) + (if hasSpouse family then 1 else 0)
           in mkHeir person True (''1 / '' @ string_of_nat totalHeirs)
                (js_div 1 (of_nat totalHeirs))
         else mkHeir person False ''0'' 0)
      else if hasFather family \<or> hasMother family then
        (if (relation person = Some ''parent'' \<and> status person = ALIVE)
            \<or> (relation person = Some ''spouse'' \<and> hasSpouse family)
         then
           let parentCount =
                 (if hasFather family then 1 else 0) + (if hasMother family then 1 else (0::nat))
           in if relation person = Some ''spouse'' then mkHeir person True ''1/2'' (literal (5 / 10))
              else mkHeir person True
                     (if hasSpouse family then (if parentCount = 1 then ''1/2'' else ''1/4'')
                      else (if parentCount = 1 then ''1/1'' else ''1/2''))
                     (if hasSpouse family then js_div (literal (5 / 10)) (of_nat parentCount)
                      else js_div 1 (of_nat parentCount))
         else mkHeir person False ''0'' 0)
      else if length (livingSiblings family) > 0 then
        (if (relation person = Some ''sibling'' \<and> status person = ALIVE)
            \<or> (relation person = Some ''spouse'' \<and> hasSpouse family)
         then
           let sibCount = length (livingSiblings family)
           in if relation person = Some ''spouse'' then mkHeir person True ''1/2'' (literal (5 / 10))
              else mkHeir person True
                     (if hasSpouse family then ''1/'' @ string_of_nat (sibCount * 2)
                      else ''1/'' @ string_of_nat sibCount)
                     (if hasSpouse family then js_div (literal (5 / 10)) (of_nat sibCount)
                      else js_div 1 (of_nat sibCount))
         else mkHeir person False ''0'' 0)
      else if hasSpouse family \<and> relation person = Some ''spouse'' then
        mkHeir person True ''1/1'' 1
      else mkHeir person False ''0'' 0)"

definition heirs :: "Family \<Rightarrow> Heir list" where
  "heirs family = map (heirOf family) (allCandidates family)"

section \<open>The application state and the asset ledger\<close>

text \<open>
  The component's state cells that the ledger operations read and write. A state
  setter \<^verbatim>\<open>setAssets(prev => ...)\<close> is a function from the state to the next state.
\<close>

record AppState =
  family_st :: Family
  assets_st :: "Asset list"
  draggedAsset_st :: "Asset option"

definition removeChild :: "string \<Rightarrow> AppState \<Rightarrow> AppState" where
  "removeChild i st =
     st\<lparr>family_st := (family_st st)\<lparr>children := filter (\<lambda>c. member_id c \<noteq> i) (children (family_st st))\<rparr>,
        assets_st := map (\<lambda>a. if location a = i then a\<lparr>location := ''pool''\<rparr> else a) (assets_st st)\<rparr>"

definition removeSibling :: "string \<Rightarrow> AppState \<Rightarrow> AppState" where
  "removeSibling i st =
     st\<lparr>family_st := (family_st st)\<lparr>siblings := filter (\<lambda>s. member_id s \<noteq> i) (siblings (family_st st))\<rparr>,
        assets_st := map (\<lambda>a. if location a = i then a\<lparr>location := ''pool''\<rparr> else a) (assets_st st)\<rparr>"

definition totalEstate :: "Asset list \<Rightarrow> number" where
  "totalEstate assets = foldl (\<lambda>sum a. js_add sum (amount a)) 0 assets"

definition autoDeductionAmount :: "Family \<Rightarrow> number" where
  "autoDeductionAmount family =
     (let total = js_add ESTATE_TAX_EXEMPTION DEDUCTION_FUNERAL;
          total = (if status (spouse family) = ALIVE then js_add total DEDUCTION_SPOUSE else total);
          parentCount = (if status (father family) = ALIVE then 1 else 0)
                      + (if status (mother family) = ALIVE then 1 else (0::nat));
          total = js_add total (js_mul (of_nat parentCount) DEDUCTION_PARENT);
          childCount = length (filter (\<lambda>c. status c = ALIVE) (children family));
          total = js_add total (js_mul (of_nat childCount) DEDUCTION_CHILD)
      in total)"

definition taxOf :: "AppState \<Rightarrow> number" where
  "taxOf st =
     tax (calculateInheritanceTax
            (max 0 (js_sub (totalEstate (assets_st st)) (autoDeductionAmount (family_st st)))))"

definition afterTaxEstate :: "AppState \<Rightarrow> number" where
  "afterTaxEstate st = js_sub (totalEstate (assets_st st)) (taxOf st)"

definition handleDragStart :: "Asset \<Rightarrow> AppState \<Rightarrow> AppState" where
  "handleDragStart asset st = st\<lparr>draggedAsset_st := Some asset\<rparr>"

definition isExtendedZone :: "string \<Rightarrow> bool" where
  "isExtendedZone targetLocation =
     (suffix ''_spouse'' targetLocation \<or> sublist ''_child_'' targetLocation)"

definition handleDrop :: "string \<Rightarrow> AppState \<Rightarrow> AppState" where
  "handleDrop targetLocation st =
     (case draggedAsset_st st of
        None \<Rightarrow> st
      | Some draggedAsset \<Rightarrow>
          let targetHeir = find (\<lambda>h. member_id h = targetLocation) (heirs (family_st st))
          in if targetHeir = None \<and> targetLocation \<noteq> ''pool'' \<and> \<not> isExtendedZone targetLocation
             then st
             else st\<lparr>assets_st :=
                        map (\<lambda>a. if asset_id a = asset_id draggedAsset
                                  then a\<lparr>location := targetLocation\<rparr> else a)
                            (assets_st st),
                      draggedAsset_st := None\<rparr>)"

text \<open>The answer to the \<^verbatim>\<open>confirm\<close> dialog is an input of the handler.\<close>

definition handleResetAllocation :: "bool \<Rightarrow> AppState \<Rightarrow> AppState" where
  "handleResetAllocation confirmed st =
     (if confirmed then st\<lparr>assets_st := map (\<lambda>a. a\<lparr>location := ''pool''\<rparr>) (assets_st st)\<rparr>
      else st)"

text \<open>A relocation event of the ledger, and a run of such events.\<close>

datatype Event = DragStart Asset | Drop string | ResetAllocation bool

fun step :: "AppState \<Rightarrow> Event \<Rightarrow> AppState" where
  "step st (DragStart asset) = handleDragStart asset st"
| "step st (Drop targetLocation) = handleDrop targetLocation st"
| "step st (ResetAllocation confirmed) = handleResetAllocation confirmed st"

definition run :: "Event list \<Rightarrow> AppState \<Rightarrow> AppState" where
  "run events st = foldl step st events"

section \<open>The reserved portion on an heir's card\<close>

definition hasAllocationStarted :: "Asset list \<Rightarrow> bool" where
  "hasAllocationStarted assets = list_ex (\<lambda>a. location a \<noteq> ''pool'') assets"

text \<open>The \<^verbatim>\<open>assets\<close> property that the page hands to the card of an heir.\<close>

definition cardAssets :: "Heir \<Rightarrow> Asset list \<Rightarrow> Asset list" where
  "cardAssets heir assets =
     (if relation heir = Some ''child''
      then filter (\<lambda>a. location a = member_id heir
                       \<or> location a = member_id heir @ ''_spouse''
                       \<or> sublist (member_id heir @ ''_child_'') (location a)) assets
      else filter (\<lambda>a. location a = member_id heir) assets)"

definition totalReceived :: "Heir \<Rightarrow> Asset list \<Rightarrow> number" where
  "totalReceived heir assets =
     foldl (\<lambda>sum a. js_add sum (amount a)) 0 (filter (\<lambda>a. location a = member_id heir) assets)"

definition reservedAmount :: "number \<Rightarrow> number \<Rightarrow> number" where
  "reservedAmount totalEstate' legalShare' =
     (let expectedAmount = js_mul totalEstate' legalShare' in js_div expectedAmount 2)"

definition isUnderReserved :: "Heir \<Rightarrow> Asset list \<Rightarrow> number \<Rightarrow> number \<Rightarrow> bool \<Rightarrow> bool \<Rightarrow> bool" where
  "isUnderReserved heir assets legalShare' totalEstate' isHeir' hasAllocationStarted' =
     (isHeir' \<and> hasAllocationStarted'
      \<and> totalReceived heir assets < reservedAmount totalEstate' legalShare')"

text \<open>The flag of the card that the page renders for \<open>heir\<close>.\<close>

definition cardUnderReserved :: "AppState \<Rightarrow> Heir \<Rightarrow> bool" where
  "cardUnderReserved st heir =
     isUnderReserved heir (cardAssets heir (assets_st st)) (legalShare heir)
       (afterTaxEstate st) (isHeir heir) (hasAllocationStarted (assets_st st))"

section \<open>Example inputs\<close>

definition person :: "string \<Rightarrow> PersonStatusType \<Rightarrow> FamilyMember" where
  "person i s =
     \<lparr>member_id = i, member_name = i, gender = male, status = s, relation = None,
      relationLabel = None, hasSpouse_m = None, hasChildren_m = None, childCount_m = None\<rparr>"

definition family_of ::
  "PersonStatusType \<Rightarrow> PersonStatusType \<Rightarrow> PersonStatusType \<Rightarrow> FamilyMember list
     \<Rightarrow> FamilyMember list \<Rightarrow> Family" where
  "family_of sp fa mo cs ss =
     \<lparr>self = ('''', male), spouse = person ''spouse'' sp, father = person ''father'' fa,
      mother = person ''mother'' mo, children = cs, siblings = ss\<rparr>"

definition cash_asset :: "string \<Rightarrow> number \<Rightarrow> string \<Rightarrow> Asset" where
  "cash_asset i n l = \<lparr>asset_id = i, asset_type = cash, amount = n, location = l, asset_name = None\<rparr>"

text \<open>A living father beside a living child: the father is listed and is no heir.\<close>

definition family_child_father :: Family where
  "family_child_father = family_of NONE ALIVE NONE [person ''c1'' ALIVE] []"

definition state_child_father :: AppState where
  "state_child_father =
     \<lparr>family_st = family_child_father,
      assets_st = [cash_asset ''a1'' 1000000 ''pool'', cash_asset ''a2'' 2000000 ''c1''],
      draggedAsset_st = Some (cash_asset ''a1'' 1000000 ''pool'')\<rparr>"


text \<open>Assets on a child's card, in its two extended slots and on the father's card.\<close>

definition state_extended :: AppState where
  "state_extended =
     \<lparr>family_st = family_child_father,
      assets_st = [cash_asset ''a1'' 1000000 ''c1'', cash_asset ''a2'' 2000000 ''c1_spouse'',
                   cash_asset ''a3'' 3000000 ''c1_child_0'', cash_asset ''a4'' 4000000 ''father''],
      draggedAsset_st = Some (cash_asset ''a4'' 4000000 ''father'')\<rparr>"

text \<open>A living spouse and two living children; a living spouse and both parents.\<close>

definition family_spouse_two_children :: Family where
  "family_spouse_two_children =
     family_of ALIVE NONE NONE [person ''c1'' ALIVE, person ''c2'' ALIVE] []"

definition family_spouse_parents :: Family where
  "family_spouse_parents = family_of ALIVE ALIVE ALIVE [] []"

text \<open>An estate of 50,000,000, of which 20,000,000 is allocated to the first child.\<close>

definition state_tax_scenario :: AppState where
  "state_tax_scenario =
     \<lparr>family_st = family_spouse_two_children,
      assets_st = [cash_asset ''a1'' 30000000 ''pool'', cash_asset ''a2'' 20000000 ''c1''],
      draggedAsset_st = None\<rparr>"

text \<open>A living spouse with no child, parent or sibling.\<close>

definition family_spouse_alone :: Family where
  "family_spouse_alone = family_of ALIVE NONE NONE [] []"

text \<open>The same estate with every asset still in the pool.\<close>

definition state_all_pool :: AppState where
  "state_all_pool =
     \<lparr>family_st = family_spouse_two_children,
      assets_st = [cash_asset ''a1'' 30000000 ''pool'', cash_asset ''a2'' 20000000 ''pool''],
      draggedAsset_st = None\<rparr>"

section \<open>Rounding to the nearest double\<close>

lemma bitlen_pos: "0 < p \<Longrightarrow> 1 \<le> bitlen p"
  using bitlen_nonneg [of "p div 2"] by (subst compute_bitlen) simp

lemma bitlen_powi_bounds:
  assumes "0 < p"
  shows "(2::rat) powi (bitlen p - 1) \<le> of_int p" and "of_int p < (2::rat) powi bitlen p"
proof -
  have b: "1 \<le> bitlen p" using assms by (rule bitlen_pos)
  from bitlen_bounds [OF assms]
  have l: "2 ^ nat (bitlen p - 1) \<le> p" and u: "p < 2 ^ nat (bitlen p)" by simp_all
  have "(of_int (2 ^ nat (bitlen p - 1)) :: rat) \<le> of_int p"
    using l by (simp only: of_int_le_iff)
  then show "(2::rat) powi (bitlen p - 1) \<le> of_int p"
    using b by (simp add: power_int_nonneg_exp)
  have "(of_int p :: rat) < of_int (2 ^ nat (bitlen p))"
    using u by (simp only: of_int_less_iff)
  then show "of_int p < (2::rat) powi bitlen p"
    using b by (simp add: power_int_nonneg_exp)
qed

lemma expo_bounds:
  assumes "0 < x"
  shows "2 powi (expo x) \<le> x" and "x < 2 powi (expo x + 1)"
proof -
  obtain p q where pq: "quotient_of x = (p, q)" by fastforce
  have q: "0 < q" using quotient_of_denom_pos [OF pq] .
  have x: "x = of_int p / of_int q" using quotient_of_div [OF pq] .
  have p: "0 < p" using assms q x by (simp add: zero_less_divide_iff)
  define e where "e = bitlen p - bitlen q"
  have lo: "2 powi (e - 1) < x"
  proof -
    have "(2::rat) powi (e - 1) = 2 powi (bitlen p - 1) / 2 powi bitlen q"
      unfolding e_def by (simp add: power_int_diff)
    also have "\<dots> < of_int p / of_int q"
      using bitlen_powi_bounds [OF p] bitlen_powi_bounds [OF q] q
      by (intro frac_less2) simp_all
    finally show ?thesis using x by simp
  qed
  have hi: "x < 2 powi (e + 1)"
  proof -
    have "x = of_int p / of_int q" by (rule x)
    also have "\<dots> < 2 powi bitlen p / 2 powi (bitlen q - 1)"
      using bitlen_powi_bounds [OF p] bitlen_powi_bounds [OF q] p
      by (intro frac_less) simp_all
    also have "\<dots> = 2 powi (e + 1)"
      unfolding e_def by (simp add: power_int_diff power_int_add)
    finally show ?thesis .
  qed
  have ex: "expo x = (if x < 2 powi e then e - 1 else e)"
    by (simp add: expo_def pq e_def Let_def)
  show "2 powi (expo x) \<le> x"
    using lo by (simp add: ex)
  show "x < 2 powi (expo x + 1)"
    using hi by (simp add: ex)
qed

lemma expo_unique:
  assumes "2 powi e \<le> x" and "x < 2 powi (e + 1)"
  shows "expo x = e"
proof -
  have pos: "0 < x"
    using assms(1) zero_less_power_int [of "2::rat" e] by linarith
  note b = expo_bounds [OF pos]
  have 1: "e < expo x + 1"
  proof (rule ccontr)
    assume "\<not> e < expo x + 1"
    then have "(2::rat) powi (expo x + 1) \<le> 2 powi e"
      by (intro power_int_increasing) simp_all
    with assms(1) b(2) show False by linarith
  qed
  have 2: "expo x < e + 1"
  proof (rule ccontr)
    assume "\<not> expo x < e + 1"
    then have "(2::rat) powi (e + 1) \<le> 2 powi (expo x)"
      by (intro power_int_increasing) simp_all
    with assms(2) b(1) show False by linarith
  qed
  from 1 2 show ?thesis by linarith
qed

lemma round_half_even_error: "\<bar>of_int (round_half_even z) - z\<bar> \<le> 1 / 2"
proof -
  have "of_int \<lfloor>z\<rfloor> \<le> z" and "z < of_int \<lfloor>z\<rfloor> + 1"
    by linarith+
  then show ?thesis
    by (auto simp: round_half_even_def Let_def)
qed

lemma round_half_even_of_int: "round_half_even (of_int n) = n"
  by (simp add: round_half_even_def)

lemma round_half_even_range:
  shows "\<lfloor>z\<rfloor> \<le> round_half_even z" and "round_half_even z \<le> \<lfloor>z\<rfloor> + 1"
  by (simp_all add: round_half_even_def Let_def)

lemma powi_split: "(2::rat) powi a * 2 powi (b - a) = 2 powi b"
  by (simp add: power_int_add [symmetric])

lemma round_half_even_mono:
  assumes "z \<le> w"
  shows "round_half_even z \<le> round_half_even w"
proof (cases "\<lfloor>z\<rfloor> = \<lfloor>w\<rfloor>")
  case True
  with assms show ?thesis
    by (auto simp: round_half_even_def Let_def)
next
  case False
  with assms have "\<lfloor>z\<rfloor> + 1 \<le> \<lfloor>w\<rfloor>"
    using floor_mono [of z w] by linarith
  with round_half_even_range(2) [of z] round_half_even_range(1) [of w]
  show ?thesis by linarith
qed

lemma fl_0: "fl 0 = 0"
  by (simp add: fl_def)

lemma fl_pos_eq:
  "0 < x \<Longrightarrow> fl x = of_int (round_half_even (x * 2 powi (52 - expo x))) * 2 powi (expo x - 52)"
  by (simp add: fl_def Let_def)

lemma fl_minus: "fl (- x) = - fl x"
  by (simp add: fl_def Let_def)

lemma scaled_range:
  assumes "0 < x"
  shows "2 ^ 52 \<le> x * 2 powi (52 - expo x)" and "x * 2 powi (52 - expo x) < 2 ^ 53"
proof -
  note b = expo_bounds [OF assms]
  have s: "(0::rat) < 2 powi (52 - expo x)" by simp
  have "(2::rat) powi (expo x) * 2 powi (52 - expo x) = 2 powi 52"
    by (rule powi_split)
  moreover have "2 powi (expo x) * 2 powi (52 - expo x) \<le> x * 2 powi (52 - expo x)"
    using b(1) s by (simp only: mult_le_cancel_right_pos)
  ultimately show "2 ^ 52 \<le> x * 2 powi (52 - expo x)" by simp
  have "(2::rat) powi (expo x + 1) * 2 powi (53 - (expo x + 1)) = 2 powi 53"
    by (rule powi_split)
  then have "(2::rat) powi (expo x + 1) * 2 powi (52 - expo x) = 2 powi 53"
    by (simp add: algebra_simps)
  moreover have "x * 2 powi (52 - expo x) < 2 powi (expo x + 1) * 2 powi (52 - expo x)"
    using b(2) s by (simp only: mult_less_cancel_right_pos)
  ultimately show "x * 2 powi (52 - expo x) < 2 ^ 53" by simp
qed

lemma significand_range:
  assumes "0 < x"
  shows "2 ^ 52 \<le> round_half_even (x * 2 powi (52 - expo x))"
    and "round_half_even (x * 2 powi (52 - expo x)) \<le> 2 ^ 53"
proof -
  note r = scaled_range [OF assms]
  have "round_half_even (of_int (2 ^ 52)) \<le> round_half_even (x * 2 powi (52 - expo x))"
    using r(1) by (intro round_half_even_mono) simp
  then show "2 ^ 52 \<le> round_half_even (x * 2 powi (52 - expo x))"
    by (simp only: round_half_even_of_int)
  have "round_half_even (x * 2 powi (52 - expo x)) \<le> round_half_even (of_int (2 ^ 53))"
    using r(2) by (intro round_half_even_mono) simp
  then show "round_half_even (x * 2 powi (52 - expo x)) \<le> 2 ^ 53"
    by (simp only: round_half_even_of_int)
qed

lemma fl_pos_bounds:
  assumes "0 < x"
  shows "2 powi (expo x) \<le> fl x" and "fl x \<le> 2 powi (expo x + 1)"
proof -
  note m = significand_range [OF assms]
  have s: "(0::rat) < 2 powi (expo x - 52)" by simp
  have "(of_int (2 ^ 52) :: rat) \<le> of_int (round_half_even (x * 2 powi (52 - expo x)))"
    using m(1) by (simp only: of_int_le_iff)
  then have "(2::rat) ^ 52 * 2 powi (expo x - 52) \<le> fl x"
    using s by (simp add: fl_pos_eq [OF assms])
  moreover have "(2::rat) powi 52 * 2 powi (expo x - 52) = 2 powi (expo x)"
    by (rule powi_split)
  ultimately show "2 powi (expo x) \<le> fl x" by simp
  have "(of_int (round_half_even (x * 2 powi (52 - expo x))) :: rat) \<le> of_int (2 ^ 53)"
    using m(2) by (simp only: of_int_le_iff)
  then have "fl x \<le> (2::rat) ^ 53 * 2 powi (expo x - 52)"
    using s by (simp add: fl_pos_eq [OF assms])
  moreover have "(2::rat) powi 53 * 2 powi (expo x + 1 - 53) = 2 powi (expo x + 1)"
    by (rule powi_split)
  ultimately show "fl x \<le> 2 powi (expo x + 1)" by simp
qed

lemma fl_pos: "0 < x \<Longrightarrow> 0 < fl x"
  using fl_pos_bounds(1) [of x] zero_less_power_int [of "2::rat" "expo x"] by linarith

lemma fl_mono_pos:
  assumes "0 < x" and "x \<le> y"
  shows "fl x \<le> fl y"
proof -
  have y: "0 < y" using assms by linarith
  note bx = expo_bounds [OF assms(1)] and by' = expo_bounds [OF y]
  have le: "expo x \<le> expo y"
  proof (rule ccontr)
    assume "\<not> expo x \<le> expo y"
    then have "(2::rat) powi (expo y + 1) \<le> 2 powi (expo x)"
      by (intro power_int_increasing) simp_all
    with bx(1) by'(2) assms(2) show False by linarith
  qed
  show ?thesis
  proof (cases "expo x = expo y")
    case True
    have "x * 2 powi (52 - expo y) \<le> y * 2 powi (52 - expo y)"
      using assms(2) by (simp only: mult_le_cancel_right_pos zero_less_power_int zero_less_numeral)
    then have "round_half_even (x * 2 powi (52 - expo y)) \<le> round_half_even (y * 2 powi (52 - expo y))"
      by (rule round_half_even_mono)
    then have "(of_int (round_half_even (x * 2 powi (52 - expo y))) :: rat)
               \<le> of_int (round_half_even (y * 2 powi (52 - expo y)))"
      by (simp only: of_int_le_iff)
    then show ?thesis
      by (simp add: fl_pos_eq [OF assms(1)] fl_pos_eq [OF y] True)
  next
    case False
    with le have "expo x + 1 \<le> expo y" by linarith
    then have "(2::rat) powi (expo x + 1) \<le> 2 powi (expo y)"
      by (intro power_int_increasing) simp_all
    with fl_pos_bounds(2) [OF assms(1)] fl_pos_bounds(1) [OF y] show ?thesis
      by linarith
  qed
qed

lemma fl_mono:
  assumes "x \<le> y"
  shows "fl x \<le> fl y"
proof -
  consider "0 < x" | "y < 0" | "x \<le> 0" "0 \<le> y" by linarith
  then show ?thesis
  proof cases
    case 1
    then show ?thesis using assms by (rule fl_mono_pos)
  next
    case 2
    then have "fl (- y) \<le> fl (- x)"
      using assms by (intro fl_mono_pos) simp_all
    then show ?thesis by (simp add: fl_minus)
  next
    case 3
    have "fl x \<le> 0"
    proof (cases "x = 0")
      case True
      then show ?thesis by (simp add: fl_0)
    next
      case False
      with 3 have "0 < fl (- x)" by (intro fl_pos) simp
      then show ?thesis by (simp add: fl_minus)
    qed
    moreover have "0 \<le> fl y"
    proof (cases "y = 0")
      case True
      then show ?thesis by (simp add: fl_0)
    next
      case False
      with 3 have "0 < fl y" by (intro fl_pos) simp
      then show ?thesis by simp
    qed
    ultimately show ?thesis by linarith
  qed
qed

lemma fl_error_pos:
  assumes "0 < x"
  shows "\<bar>fl x - x\<bar> \<le> x / 2 ^ 53"
proof -
  define s :: rat where "s = 2 powi (expo x - 52)"
  define z where "z = x * 2 powi (52 - expo x)"
  have s: "0 < s" by (simp add: s_def)
  have "(2::rat) powi (52 - expo x) * 2 powi (0 - (52 - expo x)) = 2 powi 0"
    by (rule powi_split)
  then have "(2::rat) powi (52 - expo x) * 2 powi (expo x - 52) = 1"
    by (simp add: algebra_simps)
  then have zs: "z * s = x"
    by (simp add: z_def s_def mult.assoc)
  have "fl x = of_int (round_half_even z) * s"
    by (simp add: fl_pos_eq [OF assms] z_def s_def)
  with zs have "fl x - x = (of_int (round_half_even z) - z) * s"
    by (simp add: left_diff_distrib)
  then have "\<bar>fl x - x\<bar> = \<bar>of_int (round_half_even z) - z\<bar> * s"
    using s by (simp add: abs_mult)
  also have "\<dots> \<le> (1 / 2) * s"
    using round_half_even_error [of z] s by (intro mult_right_mono) simp_all
  also have "\<dots> = 2 powi (expo x) / 2 ^ 53"
    by (simp add: s_def power_int_diff)
  also have "\<dots> \<le> x / 2 ^ 53"
    using expo_bounds(1) [OF assms] by (intro divide_right_mono) simp_all
  finally show ?thesis .
qed

lemma fl_error: "\<bar>fl x - x\<bar> \<le> \<bar>x\<bar> / 2 ^ 53"
proof -
  consider "0 < x" | "x = 0" | "x < 0" by linarith
  then show ?thesis
  proof cases
    case 1
    then show ?thesis using fl_error_pos [of x] by simp
  next
    case 2
    then show ?thesis by (simp add: fl_0)
  next
    case 3
    then have "\<bar>fl (- x) - (- x)\<bar> \<le> (- x) / 2 ^ 53"
      by (intro fl_error_pos) simp
    moreover have "\<bar>fl (- x) - (- x)\<bar> = \<bar>fl x - x\<bar>"
      by (simp add: fl_minus)
    ultimately show ?thesis using 3 by simp
  qed
qed

section \<open>The estate tax is monotone and continuous\<close>

lemma tax_cases:
  "tax (calculateInheritanceTax x) =
     (if x \<le> 0 then 0
      else if x \<le> 56210000 then bracketTax (ESTATE_TAX_BRACKETS ! 0) x
      else if x \<le> 112420000 then bracketTax (ESTATE_TAX_BRACKETS ! 1) x
      else bracketTax (ESTATE_TAX_BRACKETS ! 2) x)"
  by (simp add: calculateInheritanceTax_def ESTATE_TAX_BRACKETS_def le_limit_def bracketTax_def Let_def)

lemma rates_nonneg:
  "0 \<le> bracket_rate (ESTATE_TAX_BRACKETS ! 0)"
  "0 \<le> bracket_rate (ESTATE_TAX_BRACKETS ! 1)"
  "0 \<le> bracket_rate (ESTATE_TAX_BRACKETS ! 2)"
  by code_simp+

lemma bracketTax_mono:
  assumes "0 \<le> bracket_rate b" and "x \<le> y"
  shows "bracketTax b x \<le> bracketTax b y"
proof -
  have "x * bracket_rate b \<le> y * bracket_rate b"
    using assms by (rule mult_right_mono [rotated])
  then have "js_mul x (bracket_rate b) \<le> js_mul y (bracket_rate b)"
    unfolding js_mul_def by (rule fl_mono)
  then have "js_sub (js_mul x (bracket_rate b)) (deduction b) \<le> js_sub (js_mul y (bracket_rate b)) (deduction b)"
    unfolding js_sub_def by (intro fl_mono) simp
  then show ?thesis
    unfolding bracketTax_def by (rule max.mono [OF order_refl])
qed

lemma bracketTax_nonneg: "0 \<le> bracketTax b x"
  by (simp add: bracketTax_def)

lemma boundary_1:
  "bracketTax (ESTATE_TAX_BRACKETS ! 0) 56210000 = 5621000"
  "bracketTax (ESTATE_TAX_BRACKETS ! 1) 56210000 = 5621000"
  by code_simp+

lemma boundary_2:
  "bracketTax (ESTATE_TAX_BRACKETS ! 1) 112420000 = 14052500"
  "bracketTax (ESTATE_TAX_BRACKETS ! 2) 112420000 = 14052500"
  by code_simp+

lemma tax_mono:
  assumes "x \<le> y"
  shows "tax (calculateInheritanceTax x) \<le> tax (calculateInheritanceTax y)"
proof -
  let ?b0 = "ESTATE_TAX_BRACKETS ! 0" and ?b1 = "ESTATE_TAX_BRACKETS ! 1"
    and ?b2 = "ESTATE_TAX_BRACKETS ! 2"
  note m0 = bracketTax_mono [OF rates_nonneg(1)]
    and m1 = bracketTax_mono [OF rates_nonneg(2)]
    and m2 = bracketTax_mono [OF rates_nonneg(3)]
  consider (a) "x \<le> 0"
    | (b) "0 < x" "y \<le> 56210000"
    | (c) "0 < x" "x \<le> 56210000" "56210000 < y" "y \<le> 112420000"
    | (d) "0 < x" "x \<le> 56210000" "112420000 < y"
    | (e) "56210000 < x" "y \<le> 112420000"
    | (f) "56210000 < x" "x \<le> 112420000" "112420000 < y"
    | (g) "112420000 < x"
    by linarith
  then show ?thesis
  proof cases
    case a
    then have "tax (calculateInheritanceTax x) = 0" by (simp add: tax_cases)
    moreover have "0 \<le> tax (calculateInheritanceTax y)"
      by (simp add: tax_cases bracketTax_nonneg)
    ultimately show ?thesis by simp
  next
    case b
    with assms m0 [of x y] show ?thesis by (simp add: tax_cases)
  next
    case c
    have "bracketTax ?b0 x \<le> bracketTax ?b0 56210000" using c by (intro m0) simp
    moreover have "bracketTax ?b1 56210000 \<le> bracketTax ?b1 y" using c by (intro m1) simp
    ultimately have "bracketTax ?b0 x \<le> bracketTax ?b1 y"
      using boundary_1 by linarith
    with c show ?thesis by (simp add: tax_cases)
  next
    case d
    have "bracketTax ?b0 x \<le> bracketTax ?b0 56210000" using d by (intro m0) simp
    moreover have "bracketTax ?b1 56210000 \<le> bracketTax ?b1 112420000" by (intro m1) simp
    moreover have "bracketTax ?b2 112420000 \<le> bracketTax ?b2 y" using d by (intro m2) simp
    ultimately have "bracketTax ?b0 x \<le> bracketTax ?b2 y"
      using boundary_1 boundary_2 by linarith
    with d show ?thesis by (simp add: tax_cases)
  next
    case e
    with assms m1 [of x y] show ?thesis by (simp add: tax_cases)
  next
    case f
    have "bracketTax ?b1 x \<le> bracketTax ?b1 112420000" using f by (intro m1) simp
    moreover have "bracketTax ?b2 112420000 \<le> bracketTax ?b2 y" using f by (intro m2) simp
    ultimately have "bracketTax ?b1 x \<le> bracketTax ?b2 y"
      using boundary_2 by linarith
    with f show ?thesis by (simp add: tax_cases)
  next
    case g
    with assms m2 [of x y] show ?thesis by (simp add: tax_cases)
  qed
qed

text \<open>
  Claim C4. The tax is monotonically non-decreasing in the taxable amount, and it is
  continuous at both bracket boundaries: at 56,210,000 the 10% formula and the 15%
  formula give the same amount, which is the tax that the function returns there, and
  at 112,420,000 so do the 15% and the 20% formula.
\<close>

theorem tax_monotone_and_continuous:
  "(0 \<le> x \<and> x \<le> y \<longrightarrow> tax (calculateInheritanceTax x) \<le> tax (calculateInheritanceTax y))
   \<and> bracketTax (ESTATE_TAX_BRACKETS ! 0) 56210000 = bracketTax (ESTATE_TAX_BRACKETS ! 1) 56210000
   \<and> tax (calculateInheritanceTax 56210000) = bracketTax (ESTATE_TAX_BRACKETS ! 1) 56210000
   \<and> bracketTax (ESTATE_TAX_BRACKETS ! 1) 112420000 = bracketTax (ESTATE_TAX_BRACKETS ! 2) 112420000
   \<and> tax (calculateInheritanceTax 112420000) = bracketTax (ESTATE_TAX_BRACKETS ! 2) 112420000"
  using tax_mono [of x y] boundary_1 boundary_2 by (simp add: tax_cases)

theorem tax_monotone_and_continuous_witness:
  "(0::rat) \<le> 56210000 \<and> (56210000::rat) \<le> 56210001
   \<and> tax (calculateInheritanceTax 56210000) \<le> tax (calculateInheritanceTax 56210001)
   \<and> tax (calculateInheritanceTax 56210000) = 5621000
   \<and> bracketTax (ESTATE_TAX_BRACKETS ! 1) 56210000 = 5621000
   \<and> bracketTax (ESTATE_TAX_BRACKETS ! 2) 112420000 = 14052500"
proof -
  have h: "(0::rat) \<le> 56210000 \<and> (56210000::rat) \<le> 56210001" by simp
  from tax_monotone_and_continuous [of 56210000 56210001] h
  have m: "tax (calculateInheritanceTax 56210000) \<le> tax (calculateInheritanceTax 56210001)"
    by blast
  have v: "tax (calculateInheritanceTax 56210000) = 5621000"
    "bracketTax (ESTATE_TAX_BRACKETS ! 1) 56210000 = 5621000"
    "bracketTax (ESTATE_TAX_BRACKETS ! 2) 112420000 = 14052500"
    by code_simp+
  from h m v show ?thesis by blast
qed

section \<open>A tax scenario\<close>

lemma scenario_deduction:
  "js_add (js_add (js_add (js_add ESTATE_TAX_EXEMPTION DEDUCTION_FUNERAL) DEDUCTION_SPOUSE)
      (js_mul (of_nat 0) DEDUCTION_PARENT)) (js_mul (of_nat 2) DEDUCTION_CHILD) = 21360000"
  by code_simp

lemma scenario_taxable: "max 0 (js_sub 50000000 21360000) = 28640000"
  by code_simp

lemma scenario_tax:
  "calculateInheritanceTax 28640000 = \<lparr>tax = 2864000, rate = literal (10 / 100)\<rparr>"
  by code_simp

text \<open>
  Claim C5. With an estate of 50,000,000, a living spouse, two living children and no
  living parent, the deductions are 13,330,000 + 1,380,000 + 5,530,000 + 2 * 560,000 =
  21,360,000, the taxable amount is 28,640,000, and the tax function returns 2,864,000
  with the rate of the first bracket, the double nearest to 10%.
\<close>

theorem tax_scenario:
  assumes "totalEstate (assets_st st) = 50000000"
    and "status (spouse (family_st st)) = ALIVE"
    and "length (filter (\<lambda>c. status c = ALIVE) (children (family_st st))) = 2"
    and "status (father (family_st st)) \<noteq> ALIVE"
    and "status (mother (family_st st)) \<noteq> ALIVE"
  shows "autoDeductionAmount (family_st st) = 13330000 + 1380000 + 5530000 + 2 * 560000
     \<and> autoDeductionAmount (family_st st) = 21360000
     \<and> max 0 (js_sub (totalEstate (assets_st st)) (autoDeductionAmount (family_st st))) = 28640000
     \<and> calculateInheritanceTax 28640000 = \<lparr>tax = 2864000, rate = literal (10 / 100)\<rparr>
     \<and> taxOf st = 2864000
     \<and> \<bar>literal (10 / 100) - 10 / 100\<bar> \<le> (10 / 100) / 2 ^ 53"
proof -
  have d: "autoDeductionAmount (family_st st) = 21360000"
    using assms(2-5) scenario_deduction by (simp add: autoDeductionAmount_def Let_def)
  have t: "max 0 (js_sub (totalEstate (assets_st st)) (autoDeductionAmount (family_st st))) = 28640000"
    using assms(1) d scenario_taxable by simp
  have x: "taxOf st = 2864000"
    unfolding taxOf_def t scenario_tax by simp
  have r: "\<bar>literal (10 / 100) - 10 / 100\<bar> \<le> (10 / 100) / 2 ^ 53"
    unfolding literal_def using fl_error [of "10 / 100"] by simp
  from d t x r scenario_tax show ?thesis by simp
qed

theorem tax_scenario_witness:
  "totalEstate (assets_st state_tax_scenario) = 50000000
   \<and> status (spouse (family_st state_tax_scenario)) = ALIVE
   \<and> length (filter (\<lambda>c. status c = ALIVE) (children (family_st state_tax_scenario))) = 2
   \<and> status (father (family_st state_tax_scenario)) \<noteq> ALIVE
   \<and> status (mother (family_st state_tax_scenario)) \<noteq> ALIVE
   \<and> autoDeductionAmount (family_st state_tax_scenario) = 21360000
   \<and> taxOf state_tax_scenario = 2864000"
proof -
  have h: "totalEstate (assets_st state_tax_scenario) = 50000000"
    "status (spouse (family_st state_tax_scenario)) = ALIVE"
    "length (filter (\<lambda>c. status c = ALIVE) (children (family_st state_tax_scenario))) = 2"
    "status (father (family_st state_tax_scenario)) \<noteq> ALIVE"
    "status (mother (family_st state_tax_scenario)) \<noteq> ALIVE"
    by code_simp+
  from tax_scenario [OF h] h show ?thesis by blast
qed

section \<open>Placement of assets\<close>

lemma find_member_id:
  "h \<in> set hs \<Longrightarrow> find (\<lambda>x. member_id x = member_id h) hs \<noteq> None"
  by (induction hs) auto

text \<open>
  Claim C1, as the code has it. While an asset is being dragged, a drop onto the id of
  any person that \<open>heirs\<close> lists relocates the asset to that id, whether the person is
  an heir or not. A drop is accepted, and relocates the asset to the target, exactly
  when the target is the id of a listed person, is \<^verbatim>\<open>pool\<close> or is an extended zone; it
  is rejected, leaving the state as it was, exactly when the target is none of these.
\<close>

theorem handleDrop_listed_person:
  assumes "draggedAsset_st st = Some d"
  shows "(h \<in> set (heirs (family_st st)) \<longrightarrow>
            handleDrop (member_id h) st =
              st\<lparr>assets_st := map (\<lambda>a. if asset_id a = asset_id d
                                        then a\<lparr>location := member_id h\<rparr> else a) (assets_st st),
                 draggedAsset_st := None\<rparr>)
       \<and> handleDrop t st =
           (if t \<in> set (map member_id (heirs (family_st st))) \<or> t = ''pool'' \<or> isExtendedZone t
            then st\<lparr>assets_st := map (\<lambda>a. if asset_id a = asset_id d
                                          then a\<lparr>location := t\<rparr> else a) (assets_st st),
                    draggedAsset_st := None\<rparr>
            else st)
       \<and> (handleDrop t st = st \<longleftrightarrow>
            t \<notin> set (map member_id (heirs (family_st st))) \<and> t \<noteq> ''pool'' \<and> \<not> isExtendedZone t)"
proof -
  have f: "find (\<lambda>x. member_id x = t) (heirs (family_st st)) = None
           \<longleftrightarrow> t \<notin> set (map member_id (heirs (family_st st)))" for t
    by (auto simp: find_None_iff)
  have eq: "handleDrop t st =
           (if t \<in> set (map member_id (heirs (family_st st))) \<or> t = ''pool'' \<or> isExtendedZone t
            then st\<lparr>assets_st := map (\<lambda>a. if asset_id a = asset_id d
                                          then a\<lparr>location := t\<rparr> else a) (assets_st st),
                    draggedAsset_st := None\<rparr>
            else st)" for t
    using assms f [of t] by (auto simp: handleDrop_def Let_def)
  have ne: "st\<lparr>assets_st := xs, draggedAsset_st := None\<rparr> \<noteq> st" for xs
  proof
    assume "st\<lparr>assets_st := xs, draggedAsset_st := None\<rparr> = st"
    then have "draggedAsset_st (st\<lparr>assets_st := xs, draggedAsset_st := None\<rparr>) = draggedAsset_st st"
      by simp
    with assms show False by simp
  qed
  have 1: "h \<in> set (heirs (family_st st)) \<longrightarrow>
            handleDrop (member_id h) st =
              st\<lparr>assets_st := map (\<lambda>a. if asset_id a = asset_id d
                                        then a\<lparr>location := member_id h\<rparr> else a) (assets_st st),
                 draggedAsset_st := None\<rparr>"
    by (simp add: eq)
  have 3: "handleDrop t st = st \<longleftrightarrow>
            t \<notin> set (map member_id (heirs (family_st st))) \<and> t \<noteq> ''pool'' \<and> \<not> isExtendedZone t"
    unfolding eq [of t] using ne by auto
  from 1 eq [of t] 3 show ?thesis by blast
qed

theorem handleDrop_listed_person_witness:
  "draggedAsset_st state_child_father = Some (cash_asset ''a1'' 1000000 ''pool'')
   \<and> hd (heirs (family_st state_child_father)) \<in> set (heirs (family_st state_child_father))
   \<and> \<not> isHeir (hd (heirs (family_st state_child_father)))
   \<and> map location (assets_st (handleDrop (member_id (hd (heirs (family_st state_child_father))))
                                 state_child_father)) = [''father'', ''c1'']
   \<and> ''nobody'' \<notin> set (map member_id (heirs (family_st state_child_father)))
   \<and> ''nobody'' \<noteq> ''pool'' \<and> \<not> isExtendedZone ''nobody''
   \<and> handleDrop ''nobody'' state_child_father = state_child_father
   \<and> draggedAsset_st state_extended = Some (cash_asset ''a4'' 4000000 ''father'')
   \<and> map location (assets_st state_extended) = [''c1'', ''c1_spouse'', ''c1_child_0'', ''father'']
   \<and> map location (assets_st (handleDrop ''pool'' state_extended))
       = [''c1'', ''c1_spouse'', ''c1_child_0'', ''pool'']
   \<and> draggedAsset_st (handleDrop ''pool'' state_extended) = None"
proof -
  let ?st = state_child_father
  let ?h = "hd (heirs (family_st ?st))"
  let ?ex = state_extended
  have d: "draggedAsset_st ?st = Some (cash_asset ''a1'' 1000000 ''pool'')"
    by code_simp
  have h: "?h \<in> set (heirs (family_st ?st))"
    by code_simp
  have n: "\<not> isHeir ?h"
    by code_simp
  have r: "''nobody'' \<notin> set (map member_id (heirs (family_st ?st)))
           \<and> ''nobody'' \<noteq> ''pool'' \<and> \<not> isExtendedZone ''nobody''"
    by code_simp
  note t = handleDrop_listed_person [OF d, of ?h "''nobody''"]
  from t h have m: "handleDrop (member_id ?h) ?st =
      ?st\<lparr>assets_st := map (\<lambda>a. if asset_id a = asset_id (cash_asset ''a1'' 1000000 ''pool'')
                                then a\<lparr>location := member_id ?h\<rparr> else a) (assets_st ?st),
          draggedAsset_st := None\<rparr>"
    by blast
  have l: "map location (assets_st
      (?st\<lparr>assets_st := map (\<lambda>a. if asset_id a = asset_id (cash_asset ''a1'' 1000000 ''pool'')
                                then a\<lparr>location := member_id ?h\<rparr> else a) (assets_st ?st),
          draggedAsset_st := None\<rparr>)) = [''father'', ''c1'']"
    by code_simp
  from m l have m': "map location (assets_st (handleDrop (member_id ?h) ?st)) = [''father'', ''c1'']"
    by simp
  from t r have k: "handleDrop ''nobody'' ?st = ?st"
    by blast
  have d': "draggedAsset_st ?ex = Some (cash_asset ''a4'' 4000000 ''father'')"
    by code_simp
  have b: "map location (assets_st ?ex) = [''c1'', ''c1_spouse'', ''c1_child_0'', ''father'']"
    by code_simp
  note u = handleDrop_listed_person [OF d', of "hd (heirs (family_st ?ex))" "''pool''"]
  from u have p: "handleDrop ''pool'' ?ex =
      ?ex\<lparr>assets_st := map (\<lambda>a. if asset_id a = asset_id (cash_asset ''a4'' 4000000 ''father'')
                                then a\<lparr>location := ''pool''\<rparr> else a) (assets_st ?ex),
          draggedAsset_st := None\<rparr>"
    by simp
  have q: "map location (assets_st
      (?ex\<lparr>assets_st := map (\<lambda>a. if asset_id a = asset_id (cash_asset ''a4'' 4000000 ''father'')
                                then a\<lparr>location := ''pool''\<rparr> else a) (assets_st ?ex),
          draggedAsset_st := None\<rparr>)) = [''c1'', ''c1_spouse'', ''c1_child_0'', ''pool'']"
    by code_simp
  from p q have p': "map location (assets_st (handleDrop ''pool'' ?ex))
       = [''c1'', ''c1_spouse'', ''c1_child_0'', ''pool'']"
    by simp
  from p have p'': "draggedAsset_st (handleDrop ''pool'' ?ex) = None"
    by simp
  from d h n m' r k d' b p' p'' show ?thesis
    by blast
qed

text \<open>
  Claim C1 as the specification states it fails: the living father beside a living child
  is listed with \<open>isHeir = False\<close>, and a drop onto his id moves the asset there.
\<close>

theorem handleDrop_non_heir_counterexample:
  "map member_id (heirs family_child_father) = [''father'', ''c1'']
   \<and> map isHeir (heirs family_child_father) = [False, True]
   \<and> map location (assets_st state_child_father) = [''pool'', ''c1'']
   \<and> map location (assets_st (handleDrop ''father'' state_child_father)) = [''father'', ''c1'']"
  by code_simp

text \<open>
  Claim C9. While an asset is being dragged, a drop onto any target that ends with
  \<^verbatim>\<open>_spouse\<close> or contains \<^verbatim>\<open>_child_\<close> sets the location of the dragged asset to that
  string as it is; the heirs of the family are not consulted.
\<close>

theorem handleDrop_extended_zone:
  assumes "draggedAsset_st st = Some d"
    and "suffix ''_spouse'' t \<or> sublist ''_child_'' t"
  shows "handleDrop t st =
           st\<lparr>assets_st := map (\<lambda>a. if asset_id a = asset_id d then a\<lparr>location := t\<rparr> else a)
                               (assets_st st),
              draggedAsset_st := None\<rparr>"
  using assms by (simp add: handleDrop_def isExtendedZone_def)

theorem handleDrop_extended_zone_witness:
  "draggedAsset_st state_child_father = Some (cash_asset ''a1'' 1000000 ''pool'')
   \<and> (suffix ''_spouse'' ''xyz_spouse'' \<or> sublist ''_child_'' ''xyz_spouse'')
   \<and> find (\<lambda>h. member_id h = ''xyz'') (heirs (family_st state_child_father)) = None
   \<and> map location (assets_st (handleDrop ''xyz_spouse'' state_child_father)) = [''xyz_spouse'', ''c1'']"
proof -
  let ?st = state_child_father
  have d: "draggedAsset_st ?st = Some (cash_asset ''a1'' 1000000 ''pool'')"
    by code_simp
  have z: "suffix ''_spouse'' ''xyz_spouse'' \<or> sublist ''_child_'' ''xyz_spouse''"
    by code_simp
  have f: "find (\<lambda>h. member_id h = ''xyz'') (heirs (family_st ?st)) = None"
    by code_simp
  note t = handleDrop_extended_zone [OF d z]
  have l: "map location (assets_st
      (?st\<lparr>assets_st := map (\<lambda>a. if asset_id a = asset_id (cash_asset ''a1'' 1000000 ''pool'')
                                then a\<lparr>location := ''xyz_spouse''\<rparr> else a) (assets_st ?st),
          draggedAsset_st := None\<rparr>)) = [''xyz_spouse'', ''c1'']"
    by code_simp
  from t l have m: "map location (assets_st (handleDrop ''xyz_spouse'' ?st)) = [''xyz_spouse'', ''c1'']"
    by simp
  from d z f m show ?thesis
    by blast
qed

section \<open>Removing a child or a sibling\<close>

lemma relocate_nth:
  assumes "k < length xs"
  shows "map (\<lambda>a. if location a = i then a\<lparr>location := ''pool''\<rparr> else a) xs ! k
         = (if location (xs ! k) = i then (xs ! k)\<lparr>location := ''pool''\<rparr> else xs ! k)"
  using assms by simp

text \<open>
  Claim C10. \<open>removeChild i\<close> and \<open>removeSibling i\<close> keep the number and order of the
  assets; an asset located at \<open>i\<close> moves to the pool and nothing else of it changes, every
  other asset is unchanged, and so an asset in the extended slots \<open>i @ ''_spouse''\<close> or
  \<open>i @ ''_child_'' @ n\<close> keeps its location.
\<close>

theorem remove_relocates_own_assets:
  assumes "st' = removeChild i st \<or> st' = removeSibling i st"
    and "k < length (assets_st st)"
  shows "length (assets_st st') = length (assets_st st)
     \<and> (location (assets_st st ! k) = i \<longrightarrow> assets_st st' ! k = (assets_st st ! k)\<lparr>location := ''pool''\<rparr>)
     \<and> (location (assets_st st ! k) \<noteq> i \<longrightarrow> assets_st st' ! k = assets_st st ! k)
     \<and> (location (assets_st st ! k) = i @ ''_spouse'' \<longrightarrow> location (assets_st st' ! k) = i @ ''_spouse'')
     \<and> (location (assets_st st ! k) = i @ ''_child_'' @ n \<longrightarrow> location (assets_st st' ! k) = i @ ''_child_'' @ n)"
proof -
  have eq: "assets_st st' = map (\<lambda>a. if location a = i then a\<lparr>location := ''pool''\<rparr> else a) (assets_st st)"
    using assms(1) by (auto simp: removeChild_def removeSibling_def)
  show ?thesis
    unfolding eq using assms(2) by (simp add: relocate_nth)
qed

theorem remove_relocates_own_assets_witness:
  "map location (assets_st state_extended) = [''c1'', ''c1_spouse'', ''c1_child_0'', ''father'']
   \<and> assets_st (removeChild ''c1'' state_extended) ! 0 = (assets_st state_extended ! 0)\<lparr>location := ''pool''\<rparr>
   \<and> assets_st (removeChild ''c1'' state_extended) ! 3 = assets_st state_extended ! 3
   \<and> location (assets_st (removeChild ''c1'' state_extended) ! 1) = ''c1'' @ ''_spouse''
   \<and> location (assets_st (removeChild ''c1'' state_extended) ! 2) = ''c1'' @ ''_child_'' @ ''0''
   \<and> length (assets_st (removeSibling ''father'' state_extended)) = length (assets_st state_extended)"
proof -
  let ?st = state_extended
  have len: "0 < length (assets_st ?st)" "1 < length (assets_st ?st)"
    "2 < length (assets_st ?st)" "3 < length (assets_st ?st)"
    by code_simp+
  have locs: "map location (assets_st ?st) = [''c1'', ''c1_spouse'', ''c1_child_0'', ''father'']"
    by code_simp
  have l0: "location (assets_st ?st ! 0) = ''c1''" by code_simp
  have l1: "location (assets_st ?st ! 1) = ''c1'' @ ''_spouse''" by code_simp
  have l2: "location (assets_st ?st ! 2) = ''c1'' @ ''_child_'' @ ''0''" by code_simp
  have l3: "location (assets_st ?st ! 3) \<noteq> ''c1''" by code_simp
  have c: "removeChild ''c1'' ?st = removeChild ''c1'' ?st \<or> removeChild ''c1'' ?st = removeSibling ''c1'' ?st"
    by simp
  have s: "removeSibling ''father'' ?st = removeChild ''father'' ?st
           \<or> removeSibling ''father'' ?st = removeSibling ''father'' ?st"
    by simp
  from remove_relocates_own_assets [OF c len(1), of "''0''"] l0
  have a0: "assets_st (removeChild ''c1'' ?st) ! 0 = (assets_st ?st ! 0)\<lparr>location := ''pool''\<rparr>"
    by blast
  from remove_relocates_own_assets [OF c len(4), of "''0''"] l3
  have a3: "assets_st (removeChild ''c1'' ?st) ! 3 = assets_st ?st ! 3"
    by blast
  from remove_relocates_own_assets [OF c len(2), of "''0''"] l1
  have a1: "location (assets_st (removeChild ''c1'' ?st) ! 1) = ''c1'' @ ''_spouse''"
    by blast
  from remove_relocates_own_assets [OF c len(3), of "''0''"] l2
  have a2: "location (assets_st (removeChild ''c1'' ?st) ! 2) = ''c1'' @ ''_child_'' @ ''0''"
    by blast
  from remove_relocates_own_assets [OF s len(1), of "''0''"]
  have a4: "length (assets_st (removeSibling ''father'' ?st)) = length (assets_st ?st)"
    by blast
  from locs a0 a3 a1 a2 a4 show ?thesis
    by blast
qed

section \<open>Conservation of the assets\<close>

lemma totalEstate_amounts: "totalEstate assets = foldl js_add 0 (map amount assets)"
  by (simp add: totalEstate_def foldl_map)

lemma amount_erase: "map amount assets = map amount (map (\<lambda>a. a\<lparr>location := []\<rparr>) assets)"
  by (simp add: comp_def)

lemma step_erase:
  "map (\<lambda>a. a\<lparr>location := []\<rparr>) (assets_st (step st e)) = map (\<lambda>a. a\<lparr>location := []\<rparr>) (assets_st st)"
proof (cases e)
  case (DragStart x)
  then show ?thesis by (simp add: handleDragStart_def)
next
  case (Drop t)
  then show ?thesis
    by (auto simp: handleDrop_def Let_def comp_def split: option.splits)
next
  case (ResetAllocation c)
  then show ?thesis by (simp add: handleResetAllocation_def comp_def)
qed

lemma run_erase:
  "map (\<lambda>a. a\<lparr>location := []\<rparr>) (assets_st (run events st)) = map (\<lambda>a. a\<lparr>location := []\<rparr>) (assets_st st)"
  unfolding run_def
  by (induction events arbitrary: st) (simp_all add: step_erase)

text \<open>
  Claim C6. Along any run of drag, drop and reset events, from any state, the sum of the
  amounts is the same, the number of assets is the same, and the assets differ from the
  initial ones in their \<open>location\<close> field at most: none is created and none is lost. An
  asset has one location because \<open>location\<close> is one field of its record.
\<close>

theorem run_conserves_assets:
  "totalEstate (assets_st (run events st)) = totalEstate (assets_st st)
   \<and> length (assets_st (run events st)) = length (assets_st st)
   \<and> map (\<lambda>a. a\<lparr>location := []\<rparr>) (assets_st (run events st))
       = map (\<lambda>a. a\<lparr>location := []\<rparr>) (assets_st st)"
proof -
  have e: "map (\<lambda>a. a\<lparr>location := []\<rparr>) (assets_st (run events st))
       = map (\<lambda>a. a\<lparr>location := []\<rparr>) (assets_st st)"
    by (rule run_erase)
  have "map amount (assets_st (run events st)) = map amount (assets_st st)"
    using amount_erase[of "assets_st (run events st)"] amount_erase[of "assets_st st"] e by simp
  then have "totalEstate (assets_st (run events st)) = totalEstate (assets_st st)"
    by (simp add: totalEstate_amounts)
  moreover have "length (assets_st (run events st)) = length (assets_st st)"
    using e by (metis length_map)
  ultimately show ?thesis using e by simp
qed

section \<open>Records of the resolver\<close>


lemma heirOf_non_heir: "\<not> isHeir (heirOf family p) \<Longrightarrow> legalShare (heirOf family p) = 0 \<and> share (heirOf family p) = ''0''"
  by (auto simp add: heirOf_def mkHeir_def Let_def split: if_splits)

section \<open>Statutory shares\<close>

lemma exact_shares:
  "literal (1 / 2) = 1 / 2"
  "js_div (1 / 2) 1 = 1 / 2"
  "js_div (1 / 2) 2 = 1 / 4"
  "js_div 1 1 = 1"
  "js_div 1 2 = 1 / 2"
  by code_simp+

lemma candidate_fields:
  "relation (candidate p r l) = Some r"
  "status (candidate p r l) = status p"
  "member_id (candidate p r l) = member_id p"
  by (simp_all add: candidate_def)

lemma mkHeir_fields:
  "isHeir (mkHeir p h s l) = h"
  "legalShare (mkHeir p h s l) = l"
  "relation (mkHeir p h s l) = relation p"
  "status (mkHeir p h s l) = status p"
  by (simp_all add: mkHeir_def)

lemma heirOf_fields:
  "relation (heirOf f p) = relation p"
  "status (heirOf f p) = status p"
  by (simp_all add: heirOf_def mkHeir_fields Let_def)

text \<open>The heir flag and the share of a candidate, class by class.\<close>

lemma heirOf_children_class:
  assumes "livingChildren f \<noteq> []"
  shows "isHeir (heirOf f p) \<longleftrightarrow>
           (relation p = Some ''child'' \<and> status p = ALIVE) \<or> (relation p = Some ''spouse'' \<and> hasSpouse f)"
    and "legalShare (heirOf f p) =
           (if (relation p = Some ''child'' \<and> status p = ALIVE) \<or> (relation p = Some ''spouse'' \<and> hasSpouse f)
            then js_div 1 (of_nat (length (livingChildren f) + (if hasSpouse f then 1 else 0)))
            else 0)"
  using assms by (simp_all add: heirOf_def mkHeir_fields Let_def)

lemma heirOf_parents_class:
  assumes "livingChildren f = []" and "hasFather f \<or> hasMother f"
  shows "isHeir (heirOf f p) \<longleftrightarrow>
           (relation p = Some ''parent'' \<and> status p = ALIVE) \<or> (relation p = Some ''spouse'' \<and> hasSpouse f)"
    and "legalShare (heirOf f p) =
           (if relation p = Some ''spouse'' \<and> hasSpouse f then 1 / 2
            else if relation p = Some ''parent'' \<and> status p = ALIVE
            then (if hasSpouse f then 1 / 2 else 1)
                 / of_nat ((if hasFather f then 1 else 0) + (if hasMother f then 1 else 0))
            else 0)"
  using assms by (auto simp add: heirOf_def mkHeir_fields Let_def exact_shares)

lemma heirOf_siblings_class:
  assumes "livingChildren f = []" and "\<not> hasFather f" and "\<not> hasMother f"
    and "livingSiblings f \<noteq> []"
  shows "legalShare (heirOf f p) =
           (if relation p = Some ''spouse'' \<and> hasSpouse f then 1 / 2
            else if relation p = Some ''sibling'' \<and> status p = ALIVE
            then js_div (if hasSpouse f then 1 / 2 else 1) (of_nat (length (livingSiblings f)))
            else 0)"
  using assms by (auto simp add: heirOf_def mkHeir_fields Let_def exact_shares)

lemma heirOf_spouse_alone:
  assumes "livingChildren f = []" and "\<not> hasFather f" and "\<not> hasMother f"
    and "livingSiblings f = []"
  shows "legalShare (heirOf f p) = (if relation p = Some ''spouse'' \<and> hasSpouse f then 1 else 0)"
    and "isHeir (heirOf f p) \<longleftrightarrow> relation p = Some ''spouse'' \<and> hasSpouse f"
  using assms by (auto simp add: heirOf_def mkHeir_fields Let_def)

lemma sum_heirs_candidates:
  "sum_list (map legalShare (filter isHeir (map (heirOf f) ps)))
   = sum_list (map (\<lambda>p. legalShare (heirOf f p)) ps)"
  by (induction ps) (simp_all add: heirOf_non_heir)

lemma segment_living:
  assumes "\<And>c. legalShare (heirOf f (candidate c r l)) = (if status c = ALIVE then v else 0)"
  shows "sum_list (map (\<lambda>p. legalShare (heirOf f p)) (map (\<lambda>c. candidate c r l) cs))
         = of_nat (length (filter (\<lambda>c. status c = ALIVE) cs)) * v"
  by (induction cs) (simp_all add: assms algebra_simps)

lemma segment_none:
  assumes "\<And>c. legalShare (heirOf f (candidate c r l)) = 0"
  shows "sum_list (map (\<lambda>p. legalShare (heirOf f p)) (map (\<lambda>c. candidate c r l) cs)) = 0"
  by (induction cs) (simp_all add: assms)

lemma segment_slot:
  "sum_list (map (\<lambda>p. legalShare (heirOf f p)) (if b then [candidate m r l] else []))
   = (if b then legalShare (heirOf f (candidate m r l)) else 0)"
  by simp

lemma total_split:
  "sum_list (map g (allCandidates f)) =
     sum_list (map g (if status (spouse f) \<noteq> NONE then [candidate (spouse f) ''spouse'' label_spouse] else []))
   + (sum_list (map g (if status (father f) \<noteq> NONE then [candidate (father f) ''parent'' label_father] else []))
   + (sum_list (map g (if status (mother f) \<noteq> NONE then [candidate (mother f) ''parent'' label_mother] else []))
   + (sum_list (map g (map (\<lambda>c. candidate c ''child'' label_child) (children f)))
   + sum_list (map g (map (\<lambda>s. candidate s ''sibling'' label_sibling) (siblings f))))))"
  by (simp only: allCandidates_def map_append sum_list_append)

lemma total_children_class:
  assumes "livingChildren f \<noteq> []"
  shows "sum_list (map (\<lambda>p. legalShare (heirOf f p)) (allCandidates f))
         = of_nat (length (livingChildren f) + (if hasSpouse f then 1 else 0))
           * js_div 1 (of_nat (length (livingChildren f) + (if hasSpouse f then 1 else 0)))"
proof -
  let ?v = "js_div 1 (of_nat (length (livingChildren f) + (if hasSpouse f then 1 else 0)))"
  note c = heirOf_children_class(2) [OF assms]
  have sp: "(if status (spouse f) \<noteq> NONE then legalShare (heirOf f (candidate (spouse f) ''spouse'' label_spouse)) else 0)
            = (if hasSpouse f then ?v else 0)"
    by (simp add: c candidate_fields hasSpouse_def)
  have fa: "(if status (father f) \<noteq> NONE then legalShare (heirOf f (candidate (father f) ''parent'' label_father)) else 0) = 0"
    by (simp add: c candidate_fields)
  have mo: "(if status (mother f) \<noteq> NONE then legalShare (heirOf f (candidate (mother f) ''parent'' label_mother)) else 0) = 0"
    by (simp add: c candidate_fields)
  have ch: "sum_list (map (\<lambda>p. legalShare (heirOf f p)) (map (\<lambda>c. candidate c ''child'' label_child) (children f)))
            = of_nat (length (livingChildren f)) * ?v"
    unfolding livingChildren_def
    by (rule segment_living) (simp add: c [unfolded livingChildren_def] candidate_fields)
  have si: "sum_list (map (\<lambda>p. legalShare (heirOf f p)) (map (\<lambda>c. candidate c ''sibling'' label_sibling) (siblings f))) = 0"
    by (rule segment_none) (simp add: c candidate_fields)
  have "sum_list (map (\<lambda>p. legalShare (heirOf f p)) (allCandidates f))
        = (if hasSpouse f then ?v else 0) + of_nat (length (livingChildren f)) * ?v"
    by (simp only: total_split segment_slot sp fa mo ch si add_0_left add_0_right)
  then show ?thesis
    by (simp add: algebra_simps)
qed

lemma total_parents_class:
  assumes "livingChildren f = []" and "hasFather f \<or> hasMother f"
  shows "sum_list (map (\<lambda>p. legalShare (heirOf f p)) (allCandidates f)) = 1"
proof -
  note c = heirOf_parents_class(2) [OF assms]
  let ?pc = "(if hasFather f then 1 else 0) + (if hasMother f then 1 else (0::nat))"
  let ?v = "(if hasSpouse f then 1 / 2 else 1) / (of_nat ?pc :: rat)"
  have sp: "(if status (spouse f) \<noteq> NONE then legalShare (heirOf f (candidate (spouse f) ''spouse'' label_spouse)) else 0)
            = (if hasSpouse f then 1 / 2 else 0)"
    by (simp add: c candidate_fields hasSpouse_def)
  have fa: "(if status (father f) \<noteq> NONE then legalShare (heirOf f (candidate (father f) ''parent'' label_father)) else 0)
            = (if hasFather f then ?v else 0)"
    by (simp add: c candidate_fields hasFather_def)
  have mo: "(if status (mother f) \<noteq> NONE then legalShare (heirOf f (candidate (mother f) ''parent'' label_mother)) else 0)
            = (if hasMother f then ?v else 0)"
    by (simp add: c candidate_fields hasMother_def)
  have ch: "sum_list (map (\<lambda>p. legalShare (heirOf f p)) (map (\<lambda>c. candidate c ''child'' label_child) (children f))) = 0"
    by (rule segment_none) (simp add: c candidate_fields)
  have si: "sum_list (map (\<lambda>p. legalShare (heirOf f p)) (map (\<lambda>c. candidate c ''sibling'' label_sibling) (siblings f))) = 0"
    by (rule segment_none) (simp add: c candidate_fields)
  have "sum_list (map (\<lambda>p. legalShare (heirOf f p)) (allCandidates f))
        = (if hasSpouse f then 1 / 2 else 0) + ((if hasFather f then ?v else 0) + (if hasMother f then ?v else 0))"
    by (simp only: total_split segment_slot sp fa mo ch si add_0_left add_0_right)
  also have "\<dots> = 1"
    using assms(2) by auto
  finally show ?thesis .
qed

lemma total_siblings_class:
  assumes "livingChildren f = []" and "\<not> hasFather f" and "\<not> hasMother f"
    and "livingSiblings f \<noteq> []"
  shows "sum_list (map (\<lambda>p. legalShare (heirOf f p)) (allCandidates f))
         = (if hasSpouse f then 1 / 2 else 0)
           + of_nat (length (livingSiblings f))
             * js_div (if hasSpouse f then 1 / 2 else 1) (of_nat (length (livingSiblings f)))"
proof -
  note c = heirOf_siblings_class [OF assms]
  let ?v = "js_div (if hasSpouse f then 1 / 2 else 1) (of_nat (length (livingSiblings f)))"
  have sp: "(if status (spouse f) \<noteq> NONE then legalShare (heirOf f (candidate (spouse f) ''spouse'' label_spouse)) else 0)
            = (if hasSpouse f then 1 / 2 else 0)"
    by (simp add: c candidate_fields hasSpouse_def)
  have fa: "(if status (father f) \<noteq> NONE then legalShare (heirOf f (candidate (father f) ''parent'' label_father)) else 0) = 0"
    by (simp add: c candidate_fields)
  have mo: "(if status (mother f) \<noteq> NONE then legalShare (heirOf f (candidate (mother f) ''parent'' label_mother)) else 0) = 0"
    by (simp add: c candidate_fields)
  have ch: "sum_list (map (\<lambda>p. legalShare (heirOf f p)) (map (\<lambda>c. candidate c ''child'' label_child) (children f))) = 0"
    by (rule segment_none) (simp add: c candidate_fields)
  have si: "sum_list (map (\<lambda>p. legalShare (heirOf f p)) (map (\<lambda>c. candidate c ''sibling'' label_sibling) (siblings f)))
            = of_nat (length (livingSiblings f)) * ?v"
    unfolding livingSiblings_def
    by (rule segment_living) (simp add: c [unfolded livingSiblings_def] candidate_fields)
  show ?thesis
    by (simp only: total_split segment_slot sp fa mo ch si add_0_left add_0_right)
qed

lemma total_spouse_alone:
  assumes "livingChildren f = []" and "\<not> hasFather f" and "\<not> hasMother f"
    and "livingSiblings f = []" and "hasSpouse f"
  shows "map legalShare (filter isHeir (heirs f)) = [1]"
proof -
  note c = heirOf_spouse_alone [OF assms(1-4)]
  have ch: "filter isHeir (map (heirOf f) (map (\<lambda>c. candidate c ''child'' label_child) cs)) = []" for cs
    by (induction cs) (simp_all add: c candidate_fields)
  have si: "filter isHeir (map (heirOf f) (map (\<lambda>c. candidate c ''sibling'' label_sibling) ss)) = []" for ss
    by (induction ss) (simp_all add: c candidate_fields)
  have sp: "status (spouse f) \<noteq> NONE"
    using assms(5) by (simp add: hasSpouse_def)
  have "filter isHeir (heirs f) = [heirOf f (candidate (spouse f) ''spouse'' label_spouse)]"
    unfolding heirs_def allCandidates_def map_append filter_append ch si
    using assms(5) sp by (simp add: c candidate_fields)
  then show ?thesis
    using assms(5) by (simp add: c candidate_fields)
qed

lemma split_error:
  assumes "0 < n" and "0 \<le> c"
  shows "\<bar>of_nat n * js_div c (of_nat n) - c\<bar> \<le> c / 2 ^ 53"
proof -
  have n: "(0::rat) < of_nat n" using assms(1) by simp
  have "of_nat n * js_div c (of_nat n) - c = of_nat n * (fl (c / of_nat n) - c / of_nat n)"
    using n by (simp add: js_div_def right_diff_distrib)
  then have "\<bar>of_nat n * js_div c (of_nat n) - c\<bar> = of_nat n * \<bar>fl (c / of_nat n) - c / of_nat n\<bar>"
    by (simp add: abs_mult)
  also have "\<dots> \<le> of_nat n * (\<bar>c / of_nat n\<bar> / 2 ^ 53)"
    using fl_error [of "c / of_nat n"] n by (intro mult_left_mono) simp_all
  also have "\<dots> = c / 2 ^ 53"
    using n assms(2) by simp
  finally show ?thesis .
qed

text \<open>
  Claim C2. For every family whose active priority class is not empty, the shares of the
  records with \<open>isHeir\<close> add up to 1 within \<open>1 / 10 ^ 9\<close> (the sum itself taken
  exactly; the only error is the rounding of each share to a double); when the spouse
  inherits alone there is one such record, and its share is exactly 1.
\<close>

theorem share_conservation:
  assumes "livingChildren f \<noteq> [] \<or> hasFather f \<or> hasMother f \<or> livingSiblings f \<noteq> [] \<or> hasSpouse f"
  shows "\<bar>sum_list (map legalShare (filter isHeir (heirs f))) - 1\<bar> \<le> 1 / 10 ^ 9
     \<and> (livingChildren f = [] \<and> \<not> hasFather f \<and> \<not> hasMother f \<and> livingSiblings f = []
          \<longrightarrow> map legalShare (filter isHeir (heirs f)) = [1])"
proof -
  let ?total = "sum_list (map legalShare (filter isHeir (heirs f)))"
  have t: "?total = sum_list (map (\<lambda>p. legalShare (heirOf f p)) (allCandidates f))"
    unfolding heirs_def by (rule sum_heirs_candidates)
  consider (children) "livingChildren f \<noteq> []"
    | (parents) "livingChildren f = []" "hasFather f \<or> hasMother f"
    | (siblings) "livingChildren f = []" "\<not> hasFather f" "\<not> hasMother f" "livingSiblings f \<noteq> []"
    | (alone) "livingChildren f = []" "\<not> hasFather f" "\<not> hasMother f" "livingSiblings f = []"
        "hasSpouse f"
    using assms by blast
  then show ?thesis
  proof cases
    case children
    let ?n = "length (livingChildren f) + (if hasSpouse f then 1 else 0)"
    have "0 < ?n" using children by simp
    then have "\<bar>of_nat ?n * js_div 1 (of_nat ?n) - 1\<bar> \<le> 1 / 2 ^ 53"
      by (rule split_error) simp
    then have "\<bar>?total - 1\<bar> \<le> 1 / 2 ^ 53"
      unfolding t total_children_class [OF children] .
    moreover have "(1::rat) / 2 ^ 53 \<le> 1 / 10 ^ 9" by simp
    ultimately have "\<bar>?total - 1\<bar> \<le> 1 / 10 ^ 9" by (rule order_trans)
    with children show ?thesis by simp
  next
    case parents
    have "?total = 1"
      unfolding t by (rule total_parents_class [OF parents])
    with parents show ?thesis by auto
  next
    case siblings
    let ?n = "length (livingSiblings f)"
    let ?c = "if hasSpouse f then 1 / 2 else (1::rat)"
    have n: "0 < ?n" using siblings by simp
    have c: "0 \<le> ?c" "?c \<le> 1" by simp_all
    have "\<bar>of_nat ?n * js_div ?c (of_nat ?n) - ?c\<bar> \<le> ?c / 2 ^ 53"
      using n c(1) by (rule split_error)
    moreover have "?total - 1 = of_nat ?n * js_div ?c (of_nat ?n) - ?c"
      unfolding t total_siblings_class [OF siblings] by simp
    moreover have "?c / 2 ^ 53 \<le> 1 / 10 ^ 9" by simp
    ultimately have "\<bar>?total - 1\<bar> \<le> 1 / 10 ^ 9" by simp
    with siblings show ?thesis by simp
  next
    case alone
    have "map legalShare (filter isHeir (heirs f)) = [1]"
      by (rule total_spouse_alone [OF alone])
    then show ?thesis by simp
  qed
qed

theorem share_conservation_witness:
  "livingChildren family_spouse_two_children \<noteq> []
   \<and> \<bar>sum_list (map legalShare (filter isHeir (heirs family_spouse_two_children))) - 1\<bar> \<le> 1 / 10 ^ 9
   \<and> length (filter isHeir (heirs family_spouse_two_children)) = 3
   \<and> livingChildren family_spouse_alone = [] \<and> \<not> hasFather family_spouse_alone
   \<and> \<not> hasMother family_spouse_alone \<and> livingSiblings family_spouse_alone = []
   \<and> hasSpouse family_spouse_alone
   \<and> map legalShare (filter isHeir (heirs family_spouse_alone)) = [1]"
proof -
  have a: "livingChildren family_spouse_two_children \<noteq> []"
    by code_simp
  have n: "length (filter isHeir (heirs family_spouse_two_children)) = 3"
    by code_simp
  have b: "livingChildren family_spouse_alone = []" "\<not> hasFather family_spouse_alone"
    "\<not> hasMother family_spouse_alone" "livingSiblings family_spouse_alone = []"
    "hasSpouse family_spouse_alone"
    by code_simp+
  from share_conservation [of family_spouse_two_children] a
  have s: "\<bar>sum_list (map legalShare (filter isHeir (heirs family_spouse_two_children))) - 1\<bar> \<le> 1 / 10 ^ 9"
    by blast
  from share_conservation [of family_spouse_alone] b
  have o: "map legalShare (filter isHeir (heirs family_spouse_alone)) = [1]"
    by blast
  from a s n b o show ?thesis by blast
qed

lemma spouse_candidate:
  assumes "p \<in> set (allCandidates f)" and "relation p = Some ''spouse''"
  shows "status p = status (spouse f)"
  using assms by (auto simp: allCandidates_def candidate_fields split: if_splits)

text \<open>
  Claim C3. For every record \<open>h\<close> that the resolver returns: when a child is alive, each
  living child and the living spouse is an heir with the share \<^verbatim>\<open>1 / N\<close>, the double
  nearest to the N-th part, where N counts the living children and the living spouse,
  and a parent or a sibling is no heir and has the share 0; when no child is alive and
  a parent is, the living spouse has 1/2 and, beside a living spouse, each living parent
  has 1/2 divided by the number of living parents.
\<close>

theorem statutory_shares:
  assumes "h \<in> set (heirs f)"
  shows "(livingChildren f \<noteq> [] \<longrightarrow>
            ((relation h = Some ''child'' \<or> relation h = Some ''spouse'') \<and> status h = ALIVE \<longrightarrow>
               isHeir h
               \<and> legalShare h
                 = js_div 1 (of_nat (length (livingChildren f) + (if hasSpouse f then 1 else 0))))
          \<and> (relation h = Some ''parent'' \<or> relation h = Some ''sibling'' \<longrightarrow>
               \<not> isHeir h \<and> legalShare h = 0))
     \<and> (livingChildren f = [] \<and> (hasFather f \<or> hasMother f) \<longrightarrow>
            (relation h = Some ''spouse'' \<and> status h = ALIVE \<longrightarrow> isHeir h \<and> legalShare h = 1 / 2)
          \<and> (relation h = Some ''parent'' \<and> status h = ALIVE \<and> hasSpouse f \<longrightarrow>
               isHeir h
               \<and> legalShare h
                 = (1 / 2) / of_nat ((if hasFather f then 1 else 0) + (if hasMother f then 1 else 0))))
     \<and> \<bar>js_div 1 (of_nat (length (livingChildren f) + (if hasSpouse f then 1 else 0)))
          - 1 / of_nat (length (livingChildren f) + (if hasSpouse f then 1 else 0))\<bar>
        \<le> (1 / of_nat (length (livingChildren f) + (if hasSpouse f then 1 else 0))) / 2 ^ 53"
proof -
  from assms obtain p where p: "p \<in> set (allCandidates f)" and h: "h = heirOf f p"
    by (auto simp: heirs_def)
  have sp: "relation p = Some ''spouse'' \<Longrightarrow> status p = ALIVE \<Longrightarrow> hasSpouse f"
    using spouse_candidate [OF p] by (simp add: hasSpouse_def)
  have 1: "livingChildren f \<noteq> [] \<longrightarrow>
            ((relation h = Some ''child'' \<or> relation h = Some ''spouse'') \<and> status h = ALIVE \<longrightarrow>
               isHeir h
               \<and> legalShare h
                 = js_div 1 (of_nat (length (livingChildren f) + (if hasSpouse f then 1 else 0))))
          \<and> (relation h = Some ''parent'' \<or> relation h = Some ''sibling'' \<longrightarrow>
               \<not> isHeir h \<and> legalShare h = 0)"
    using sp by (auto simp: h heirOf_fields heirOf_children_class)
  have 2: "livingChildren f = [] \<and> (hasFather f \<or> hasMother f) \<longrightarrow>
            (relation h = Some ''spouse'' \<and> status h = ALIVE \<longrightarrow> isHeir h \<and> legalShare h = 1 / 2)
          \<and> (relation h = Some ''parent'' \<and> status h = ALIVE \<and> hasSpouse f \<longrightarrow>
               isHeir h
               \<and> legalShare h
                 = (1 / 2) / of_nat ((if hasFather f then 1 else 0) + (if hasMother f then 1 else 0)))"
    using sp by (auto simp: h heirOf_fields heirOf_parents_class)
  have 3: "\<bar>js_div 1 (of_nat (length (livingChildren f) + (if hasSpouse f then 1 else 0)))
          - 1 / of_nat (length (livingChildren f) + (if hasSpouse f then 1 else 0))\<bar>
        \<le> (1 / of_nat (length (livingChildren f) + (if hasSpouse f then 1 else 0))) / 2 ^ 53"
    unfolding js_div_def
    using fl_error [of "1 / of_nat (length (livingChildren f) + (if hasSpouse f then 1 else 0))"]
    by simp
  from 1 2 3 show ?thesis by blast
qed

theorem statutory_shares_witness:
  "heirs family_spouse_two_children ! 1 \<in> set (heirs family_spouse_two_children)
   \<and> livingChildren family_spouse_two_children \<noteq> []
   \<and> relation (heirs family_spouse_two_children ! 1) = Some ''child''
   \<and> status (heirs family_spouse_two_children ! 1) = ALIVE
   \<and> isHeir (heirs family_spouse_two_children ! 1)
   \<and> legalShare (heirs family_spouse_two_children ! 1) = js_div 1 3
   \<and> map legalShare (heirs family_spouse_two_children) = [js_div 1 3, js_div 1 3, js_div 1 3]
   \<and> map legalShare (heirs family_spouse_parents) = [1 / 2, 1 / 4, 1 / 4]
   \<and> map isHeir (heirs family_child_father) = [False, True]"
proof -
  let ?f = family_spouse_two_children
  let ?h = "heirs ?f ! 1"
  have m: "?h \<in> set (heirs ?f)" by code_simp
  have c: "livingChildren ?f \<noteq> []" by code_simp
  have r: "relation ?h = Some ''child''" "status ?h = ALIVE" by code_simp+
  have n: "js_div 1 (of_nat (length (livingChildren ?f) + (if hasSpouse ?f then 1 else 0))) = js_div 1 3"
    by code_simp
  from statutory_shares [OF m] c r
  have "isHeir ?h \<and> legalShare ?h
          = js_div 1 (of_nat (length (livingChildren ?f) + (if hasSpouse ?f then 1 else 0)))"
    by blast
  with n have s: "isHeir ?h" "legalShare ?h = js_div 1 3" by simp_all
  have e: "map legalShare (heirs ?f) = [js_div 1 3, js_div 1 3, js_div 1 3]"
    "map legalShare (heirs family_spouse_parents) = [1 / 2, 1 / 4, 1 / 4]"
    "map isHeir (heirs family_child_father) = [False, True]"
    by code_simp+
  from m c r s e show ?thesis by blast
qed

section \<open>The persons that the resolver lists\<close>






section \<open>The under-reserved flag\<close>

lemma expo_half:
  assumes "0 < x"
  shows "expo (x / 2) = expo x - 1"
proof (rule expo_unique)
  note b = expo_bounds [OF assms]
  have e: "(2::rat) powi (expo x - 1) * 2 = 2 powi (expo x)"
    by (simp add: power_int_minus_mult)
  have "2 powi (expo x - 1) * 2 \<le> x" using b(1) e by simp
  then show "2 powi (expo x - 1) \<le> x / 2" by simp
  have "x < 2 powi (expo x) * 2" using b(2) by (simp add: power_int_add)
  then show "x / 2 < 2 powi (expo x - 1 + 1)" by simp
qed

lemma fl_half: "fl (x / 2) = fl x / 2"
proof -
  have pos: "fl (y / 2) = fl y / 2" if y: "0 < y" for y
  proof -
    have h: "0 < y / 2" using y by simp
    have a: "(2::rat) powi (52 - (expo y - 1)) = 2 * 2 powi (52 - expo y)"
    proof -
      have "(2::rat) powi (52 - expo y) * 2 powi (52 - (expo y - 1) - (52 - expo y)) = 2 powi (52 - (expo y - 1))"
        by (rule powi_split)
      then show ?thesis by (simp add: algebra_simps)
    qed
    have b: "(2::rat) powi (expo y - 1 - 52) * 2 = 2 powi (expo y - 52)"
    proof -
      have "(2::rat) powi (expo y - 1 - 52) * 2 powi (expo y - 52 - (expo y - 1 - 52)) = 2 powi (expo y - 52)"
        by (rule powi_split)
      then show ?thesis by (simp add: algebra_simps)
    qed
    have "fl (y / 2) = of_int (round_half_even (y / 2 * 2 powi (52 - (expo y - 1)))) * 2 powi (expo y - 1 - 52)"
      by (simp add: fl_pos_eq [OF h] expo_half [OF y])
    also have "y / 2 * 2 powi (52 - (expo y - 1)) = y * 2 powi (52 - expo y)"
      unfolding a by simp
    finally have "fl (y / 2) * 2 = of_int (round_half_even (y * 2 powi (52 - expo y))) * (2 powi (expo y - 1 - 52) * 2)"
      by simp
    then have "fl (y / 2) * 2 = fl y"
      by (simp only: b fl_pos_eq [OF y])
    then show ?thesis by simp
  qed
  consider "0 < x" | "x = 0" | "x < 0" by linarith
  then show ?thesis
  proof cases
    case 1
    then show ?thesis by (rule pos)
  next
    case 2
    then show ?thesis by (simp add: fl_0)
  next
    case 3
    then have "fl (- x / 2) = fl (- x) / 2" by (intro pos) simp
    then have "fl (- (x / 2)) = - fl x / 2" by (simp add: fl_minus)
    then show ?thesis by (simp add: fl_minus)
  qed
qed

lemma fl_idem: "fl (fl x) = fl x"
proof -
  have pos: "fl (fl y) = fl y" if y: "0 < y" for y
  proof -
    define m where "m = round_half_even (y * 2 powi (52 - expo y))"
    have fy: "fl y = of_int m * 2 powi (expo y - 52)"
      by (simp add: fl_pos_eq [OF y] m_def)
    have m: "2 ^ 52 \<le> m" "m \<le> 2 ^ 53"
      using significand_range [OF y] by (simp_all add: m_def)
    have fpos: "0 < fl y" using y by (rule fl_pos)
    have inv: "(2::rat) powi (expo y - 52) * 2 powi (52 - expo y) = 1"
    proof -
      have "(2::rat) powi (expo y - 52) * 2 powi (0 - (expo y - 52)) = 2 powi 0"
        by (rule powi_split)
      then show ?thesis by (simp add: algebra_simps)
    qed
    show ?thesis
    proof (cases "m = 2 ^ 53")
      case False
      with m have lt: "m < 2 ^ 53" by linarith
      have "(of_int m :: rat) < of_int (2 ^ 53)" using lt by (simp only: of_int_less_iff)
      then have "fl y < 2 ^ 53 * 2 powi (expo y - 52)"
        unfolding fy by (simp only: mult_less_cancel_right_pos zero_less_power_int zero_less_numeral of_int_power of_int_numeral)
      moreover have "(2::rat) powi 53 * 2 powi (expo y + 1 - 53) = 2 powi (expo y + 1)"
        by (rule powi_split)
      ultimately have "fl y < 2 powi (expo y + 1)" by simp
      with fl_pos_bounds(1) [OF y] have e: "expo (fl y) = expo y"
        by (intro expo_unique)
      have "fl y * 2 powi (52 - expo y) = of_int m * (2 powi (expo y - 52) * 2 powi (52 - expo y))"
        by (simp add: fy)
      then have "fl y * 2 powi (52 - expo y) = of_int m"
        by (simp only: inv mult_1_right)
      then have "round_half_even (fl y * 2 powi (52 - expo (fl y))) = m"
        by (simp only: e round_half_even_of_int)
      then show ?thesis
        by (simp only: fl_pos_eq [OF fpos] e fy [symmetric])
    next
      case True
      have "(2::rat) powi 53 * 2 powi (expo y + 1 - 53) = 2 powi (expo y + 1)"
        by (rule powi_split)
      then have v: "fl y = 2 powi (expo y + 1)"
        by (simp add: fy True)
      have "fl y < 2 powi (expo y + 1 + 1)"
        unfolding v by (intro power_int_strict_increasing) simp_all
      then have e: "expo (fl y) = expo y + 1"
        using v by (intro expo_unique) simp_all
      have "(2::rat) powi (expo y + 1) * 2 powi (52 - (expo y + 1)) = 2 powi 52"
        by (rule powi_split)
      then have "fl y * 2 powi (52 - expo (fl y)) = of_int (2 ^ 52)"
        unfolding e by (simp add: v)
      then have "round_half_even (fl y * 2 powi (52 - expo (fl y))) = 2 ^ 52"
        by (simp only: round_half_even_of_int)
      then have "fl (fl y) = of_int (2 ^ 52) * 2 powi (expo y + 1 - 52)"
        by (simp only: fl_pos_eq [OF fpos] e)
      moreover have "(2::rat) powi 52 * 2 powi (expo y + 1 - 52) = 2 powi (expo y + 1)"
        by (rule powi_split)
      ultimately show ?thesis by (simp add: v)
    qed
  qed
  consider "0 < x" | "x = 0" | "x < 0" by linarith
  then show ?thesis
  proof cases
    case 1
    then show ?thesis by (rule pos)
  next
    case 2
    then show ?thesis by (simp add: fl_0)
  next
    case 3
    then have "fl (fl (- x)) = fl (- x)" by (intro pos) simp
    then show ?thesis by (simp add: fl_minus)
  qed
qed

lemma fl_1: "fl 1 = 1"
  by code_simp

lemma legalShare_is_double: "fl (legalShare (heirOf f p)) = legalShare (heirOf f p)"
  by (simp add: heirOf_def mkHeir_fields Let_def js_div_def literal_def fl_idem fl_0 fl_1)

lemma reservedAmount_order:
  assumes "fl s = s"
  shows "reservedAmount e s = js_mul (js_div s 2) e"
proof -
  have "reservedAmount e s = fl (e * s) / 2"
    by (simp add: reservedAmount_def js_mul_def js_div_def fl_half fl_idem)
  moreover have "js_mul (js_div s 2) e = fl (e * s / 2)"
    by (simp add: js_mul_def js_div_def fl_half assms mult.commute)
  ultimately show ?thesis by (simp add: fl_half)
qed

lemma received_of_card:
  "filter (\<lambda>a. location a = member_id h) (cardAssets h xs) = filter (\<lambda>a. location a = member_id h) xs"
  by (auto simp: cardAssets_def intro: filter_cong)

text \<open>
  Claim C7. For every record \<open>h\<close> of the resolver, the card of \<open>h\<close> is flagged exactly
  when \<open>h\<close> is an heir, some asset of the ledger is outside the pool, and the amounts of
  the assets located exactly at the id of \<open>h\<close> add up to less than
  \<^verbatim>\<open>legalShare / 2 * afterTaxEstate\<close>; the assets of extended slots, which the page
  also hands to a child's card, are not counted. While every asset is in the pool no
  card is flagged.
\<close>

theorem under_reserved_iff:
  assumes "h \<in> set (heirs (family_st st))"
  shows "(cardUnderReserved st h \<longleftrightarrow>
            isHeir h \<and> (\<exists>a \<in> set (assets_st st). location a \<noteq> ''pool'')
            \<and> foldl (\<lambda>sum a. js_add sum (amount a)) 0
                 (filter (\<lambda>a. location a = member_id h) (assets_st st))
              < js_mul (js_div (legalShare h) 2) (afterTaxEstate st))
     \<and> ((\<forall>a \<in> set (assets_st st). location a = ''pool'') \<longrightarrow> \<not> cardUnderReserved st h)"
proof -
  from assms obtain p where "h = heirOf (family_st st) p"
    by (auto simp: heirs_def)
  then have "fl (legalShare h) = legalShare h"
    by (simp add: legalShare_is_double)
  then have r: "reservedAmount (afterTaxEstate st) (legalShare h)
                = js_mul (js_div (legalShare h) 2) (afterTaxEstate st)"
    by (rule reservedAmount_order)
  have u: "cardUnderReserved st h \<longleftrightarrow>
            isHeir h \<and> (\<exists>a \<in> set (assets_st st). location a \<noteq> ''pool'')
            \<and> foldl (\<lambda>sum a. js_add sum (amount a)) 0
                 (filter (\<lambda>a. location a = member_id h) (assets_st st))
              < js_mul (js_div (legalShare h) 2) (afterTaxEstate st)"
    by (simp add: cardUnderReserved_def isUnderReserved_def totalReceived_def received_of_card
          hasAllocationStarted_def list_ex_iff r)
  then show ?thesis by blast
qed

theorem under_reserved_iff_witness:
  "heirs (family_st state_tax_scenario) ! 2 \<in> set (heirs (family_st state_tax_scenario))
   \<and> member_id (heirs (family_st state_tax_scenario) ! 2) = ''c2''
   \<and> isHeir (heirs (family_st state_tax_scenario) ! 2)
   \<and> map location (assets_st state_tax_scenario) = [''pool'', ''c1'']
   \<and> cardUnderReserved state_tax_scenario (heirs (family_st state_tax_scenario) ! 2)
   \<and> heirs (family_st state_all_pool) ! 2 \<in> set (heirs (family_st state_all_pool))
   \<and> map location (assets_st state_all_pool) = [''pool'', ''pool'']
   \<and> \<not> cardUnderReserved state_all_pool (heirs (family_st state_all_pool) ! 2)"
proof -
  let ?st = state_tax_scenario
  let ?h = "heirs (family_st ?st) ! 2"
  let ?p = state_all_pool
  let ?k = "heirs (family_st ?p) ! 2"
  have m: "?h \<in> set (heirs (family_st ?st))" by code_simp
  have i: "member_id ?h = ''c2''" "isHeir ?h" by code_simp+
  have l: "map location (assets_st ?st) = [''pool'', ''c1'']" by code_simp
  have s: "\<exists>a \<in> set (assets_st ?st). location a \<noteq> ''pool''" by code_simp
  have c: "foldl (\<lambda>sum a. js_add sum (amount a)) 0
             (filter (\<lambda>a. location a = member_id ?h) (assets_st ?st))
           < js_mul (js_div (legalShare ?h) 2) (afterTaxEstate ?st)"
    by code_simp
  from under_reserved_iff [OF m] i(2) s c have u: "cardUnderReserved ?st ?h"
    by blast
  have m': "?k \<in> set (heirs (family_st ?p))" by code_simp
  have l': "map location (assets_st ?p) = [''pool'', ''pool'']" by code_simp
  have a: "\<forall>a \<in> set (assets_st ?p). location a = ''pool''" by code_simp
  from under_reserved_iff [OF m'] a have n: "\<not> cardUnderReserved ?p ?k"
    by blast
  from m i l u m' l' n show ?thesis by blast
qed

end
